theory Spec2Isabelle
  imports Complex_Main "HOL-Library.Word" "HOL-Library.Sublist"
begin

section \<open>Platform types and Arduino helpers\<close>

text \<open>
  The sketches run on the ESP32 (ILP32): \<^verbatim>\<open>unsigned long\<close> and \<^verbatim>\<open>size_t\<close> are 32-bit
  unsigned integers whose arithmetic wraps around, \<^verbatim>\<open>uint16_t\<close> is a 16-bit one.
\<close>

type_synonym ulong = "32 word"

text \<open>\<^verbatim>\<open>String(n)\<close> for an unsigned integer: its decimal digits, most significant first.\<close>

definition digit_char :: "nat \<Rightarrow> char" where
  "digit_char d = ''0123456789'' ! (d mod 10)"

fun decimal :: "nat \<Rightarrow> string" where
  "decimal n = (if n < 10 then [digit_char n] else decimal (n div 10) @ [digit_char (n mod 10)])"

declare decimal.simps [simp del]

definition String_ulong :: "ulong \<Rightarrow> string" where
  "String_ulong n = decimal (unat n)"

definition String_uint16 :: "16 word \<Rightarrow> string" where
  "String_uint16 n = decimal (unat n)"

text \<open>Reading a decimal numeral back, used to state what a rendered number reports.\<close>

fun digit_val :: "char \<Rightarrow> nat" where
  "digit_val c = of_char c - 48"

definition read_decimal :: "string \<Rightarrow> nat" where
  "read_decimal s = foldl (\<lambda>acc c. 10 * acc + digit_val c) 0 s"

text \<open>
  \<^verbatim>\<open>String::indexOf(pattern)\<close>: the index of the first occurrence of the pattern, or \<open>-1\<close>;
  the library answers \<open>-1\<close> at once when the start index 0 is not below the length.
\<close>

fun indexOf_from :: "int \<Rightarrow> string \<Rightarrow> string \<Rightarrow> int" where
  "indexOf_from i [] pat = (if pat = [] then i else -1)"
| "indexOf_from i (c # cs) pat =
     (if prefix pat (c # cs) then i else indexOf_from (i + 1) cs pat)"

definition indexOf :: "string \<Rightarrow> string \<Rightarrow> int" where
  "indexOf s pat = (if length s \<le> 0 then -1 else indexOf_from 0 s pat)"

text \<open>
  The floating-point unit is not modelled bit by bit. \<^verbatim>\<open>frameCount * 1000.0\<close> and the
  unsigned difference are exact in \<^verbatim>\<open>double\<close>; the quotient is rounded to \<^verbatim>\<open>double\<close> and
  then to \<^verbatim>\<open>float\<close> on assignment, so the stored value is a function \<open>float_round\<close> of the
  exact quotient. \<open>String_float2\<close> is \<^verbatim>\<open>String(x, 2)\<close>. Both are parameters of the model.
\<close>

record platform =
  float_round :: "real \<Rightarrow> real"
  String_float2 :: "real \<Rightarrow> string"

section \<open>The streaming sketch (src/main.cpp)\<close>

subsection \<open>Constants\<close>

definition websocket_server :: string where
  "websocket_server = ''services.gen6.chabokan.net''"

definition websocket_port :: "16 word" where
  "websocket_port = 26852"

definition websocket_path :: string where
  "websocket_path = ''/ws''"

definition AUTH_TOKEN :: string where
  "AUTH_TOKEN = ''esp32cam_secure_token_2024''"

definition HEARTBEAT_INTERVAL :: ulong where
  "HEARTBEAT_INTERVAL = 30000"

definition MAX_CONNECTION_ATTEMPTS :: ulong where
  "MAX_CONNECTION_ATTEMPTS = 5"

subsection \<open>Global variables, external calls and their inputs\<close>

record globals =
  isConnected :: bool
  lastFrameTime :: ulong
  frameCount :: ulong
  fps :: real
  lastHeartbeat :: ulong
  connectionAttempts :: ulong

definition initial_globals :: globals where
  "initial_globals =
     \<lparr>isConnected = False, lastFrameTime = 0, frameCount = 0, fps = 0,
      lastHeartbeat = 0, connectionAttempts = 0\<rparr>"

text \<open>
  Modelled from the spec: the \<^verbatim>\<open>WebsocketsEvent\<close> enumeration of the WebSocket library is
  declared outside the sources; the spec lists the inbound events as ConnectionOpened,
  ConnectionClosed, Ping, Pong and TextMessage. The last one stands for every value that
  the callbacks reach in their final \<^verbatim>\<open>else\<close> branch.
\<close>

datatype WebsocketsEvent = ConnectionOpened | ConnectionClosed | GotPing | GotPong | TextMessage

text \<open>The fields of \<^verbatim>\<open>camera_fb_t\<close> that the sketch reads.\<close>

record camera_fb =
  buf :: "8 word list"
  len :: ulong
  width :: ulong
  height :: ulong

text \<open>
  Every call into the serial port, the WebSocket client, the camera driver and the timer
  is recorded, in program order, as an effect. \<open>FbGet\<close> is \<^verbatim>\<open>esp_camera_fb_get()\<close> together
  with what it returned, \<open>FbReturn\<close> is \<^verbatim>\<open>esp_camera_fb_return\<close>.
\<close>

datatype effect =
  SerialPrint string
| SerialPrintln string
| AddHeader string string
| WsConnect string "16 word" string
| WsPoll
| WsSend string
| WsSendBinary "8 word list" ulong
| WsPong
| FbGet "camera_fb option"
| FbReturn camera_fb
| Delay ulong

text \<open>
  What the environment answers during one pass of \<^verbatim>\<open>loop()\<close>: the events that
  \<^verbatim>\<open>client.poll()\<close> dispatches to the callback, the MAC address, the result of
  \<^verbatim>\<open>client.connect\<close>, the three readings of \<^verbatim>\<open>millis()\<close> (lines 208, 228 and 251) and the
  result of \<^verbatim>\<open>esp_camera_fb_get()\<close> (\<open>None\<close> for the null pointer). The results of
  \<^verbatim>\<open>client.send\<close> and \<^verbatim>\<open>client.sendBinary\<close> are discarded by the sketch and are therefore
  no inputs. Inbound events reach the callback during \<^verbatim>\<open>client.poll()\<close> only.
\<close>

record env =
  poll_events :: "(WebsocketsEvent \<times> string) list"
  macAddress :: string
  connect_ok :: bool
  millis_start :: ulong
  millis_meta :: ulong
  millis_end :: ulong
  fb_get :: "camera_fb option"

subsection \<open>sendLog, onEventsCallback, connectWebSocket\<close>

definition log_json :: "string \<Rightarrow> string" where
  \<open>log_json message = ''{"type":"log","message":"'' @ message @ ''"}''\<close>

definition sendLog :: "globals \<Rightarrow> string \<Rightarrow> effect list" where
  "sendLog st message =
     SerialPrintln message # (if isConnected st then [WsSend (log_json message)] else [])"

definition onEventsCallback :: "globals \<Rightarrow> WebsocketsEvent \<times> string \<Rightarrow> globals \<times> effect list" where
  "onEventsCallback st ev =
     (if fst ev = ConnectionOpened then
        (st\<lparr>isConnected := True\<rparr>, sendLog st ''Connection opened'')
      else if fst ev = ConnectionClosed then
        (st\<lparr>isConnected := False\<rparr>, sendLog st ''Connection closed'')
      else (st, []))"

definition connect_json :: string where
  \<open>connect_json =
     ''{"type":"connection","status":"connected","device":"ESP32CAM","token":"''
       @ AUTH_TOKEN @ ''"}''\<close>

definition connectWebSocket :: "globals \<Rightarrow> env \<Rightarrow> globals \<times> effect list" where
  "connectWebSocket st e =
     (let url = ''ws://'' @ websocket_server @ '':'' @ String_uint16 websocket_port @ websocket_path;
          pre = [SerialPrint ''Connecting to '', SerialPrintln url,
                 SerialPrint ''Using token: '', SerialPrintln AUTH_TOKEN,
                 AddHeader ''Authorization'' (''Bearer '' @ AUTH_TOKEN),
                 AddHeader ''X-Device-Type'' ''ESP32CAM'',
                 AddHeader ''X-Device-ID'' (macAddress e),
                 AddHeader ''X-Device-Version'' ''1.0.0'',
                 AddHeader ''X-Connection-Type'' ''WebSocket'',
                 WsConnect websocket_server websocket_port websocket_path]
      in if connect_ok e then
           (st\<lparr>isConnected := True\<rparr>,
            pre @ [SerialPrintln ''WebSocket connected successfully!'', WsSend connect_json])
         else
           (st\<lparr>isConnected := False\<rparr>,
            pre @ [SerialPrintln ''WebSocket connection failed.'']))"

subsection \<open>loop\<close>

text \<open>\<^verbatim>\<open>client.poll()\<close> hands each pending event to the callback, in order.\<close>

fun dispatch :: "globals \<Rightarrow> (WebsocketsEvent \<times> string) list \<Rightarrow> globals \<times> effect list" where
  "dispatch st [] = (st, [])"
| "dispatch st (ev # evs) =
     (case onEventsCallback st ev of (st1, a1) \<Rightarrow>
        (case dispatch st1 evs of (st2, a2) \<Rightarrow> (st2, a1 @ a2)))"

definition client_poll :: "globals \<Rightarrow> env \<Rightarrow> globals \<times> effect list" where
  "client_poll st e = (case dispatch st (poll_events e) of (st1, a) \<Rightarrow> (st1, WsPoll # a))"

text \<open>Lines 191 to 200: the body of \<^verbatim>\<open>if (!isConnected)\<close>, before its \<^verbatim>\<open>return\<close>.\<close>

definition reconnect :: "globals \<Rightarrow> env \<Rightarrow> globals \<times> effect list" where
  "reconnect st e =
     (if connectionAttempts st < MAX_CONNECTION_ATTEMPTS then
        (case connectWebSocket st e of (st1, a) \<Rightarrow>
           (st1\<lparr>connectionAttempts := connectionAttempts st1 + 1\<rparr>,
            sendLog st (''Attempting to reconnect... (Attempt ''
                          @ String_ulong (connectionAttempts st + 1) @ ''/''
                          @ String_ulong MAX_CONNECTION_ATTEMPTS @ '')'')
              @ a @ [Delay 5000]))
      else
        (st\<lparr>connectionAttempts := 0\<rparr>,
         sendLog st ''Max reconnection attempts reached. Waiting longer before retry...''
           @ [Delay 30000]))"

text \<open>Lines 209 to 213.\<close>

definition heartbeat_json :: "ulong \<Rightarrow> string" where
  \<open>heartbeat_json t =
     ''{"type":"heartbeat","timestamp":'' @ String_ulong t @ '',"device":"ESP32CAM"}''\<close>

definition heartbeat :: "globals \<Rightarrow> ulong \<Rightarrow> globals \<times> effect list" where
  "heartbeat st currentTime =
     (if currentTime - lastHeartbeat st \<ge> HEARTBEAT_INTERVAL then
        (st\<lparr>lastHeartbeat := currentTime\<rparr>, [WsSend (heartbeat_json currentTime)])
      else (st, []))"

text \<open>Lines 223 to 235.\<close>

definition metadata_json :: "platform \<Rightarrow> camera_fb \<Rightarrow> ulong \<Rightarrow> real \<Rightarrow> string" where
  \<open>metadata_json P fb t f =
     ''{"type":"frame","size":'' @ String_ulong (len fb)
       @ '',"width":'' @ String_ulong (width fb)
       @ '',"height":'' @ String_ulong (height fb)
       @ '',"timestamp":'' @ String_ulong t
       @ '',"fps":'' @ String_float2 P f
       @ '',"device":"ESP32CAM"}''\<close>

definition send_frame :: "platform \<Rightarrow> globals \<Rightarrow> env \<Rightarrow> camera_fb \<Rightarrow> effect list" where
  "send_frame P st e fb =
     (if isConnected st then
        [WsSend (metadata_json P fb (millis_meta e) (fps st)), WsSendBinary (buf fb) (len fb)]
      else [])"

text \<open>Lines 241 to 247.\<close>

definition update_fps :: "platform \<Rightarrow> globals \<Rightarrow> ulong \<Rightarrow> globals \<times> effect list" where
  "update_fps P st currentTime =
     (let st1 = st\<lparr>frameCount := frameCount st + 1\<rparr>
      in if currentTime - lastFrameTime st1 \<ge> 1000 then
           (let st2 = st1\<lparr>fps := float_round P
                          (real (unat (frameCount st1)) * 1000
                             / real (unat (currentTime - lastFrameTime st1)))\<rparr>
            in (st2\<lparr>frameCount := 0, lastFrameTime := currentTime\<rparr>,
                sendLog st2 (''FPS: '' @ String_float2 P (fps st2))))
         else (st1, []))"

text \<open>Lines 250 to 254.\<close>

definition pace :: "ulong \<Rightarrow> ulong \<Rightarrow> effect list" where
  "pace currentTime millis_now =
     (let frameDuration = 33;
          elapsed = millis_now - (currentTime - frameDuration)
      in if elapsed < frameDuration then [Delay (frameDuration - elapsed)] else [])"

text \<open>Lines 216 to 254: from the capture to the end of the pass.\<close>

definition capture_and_send :: "platform \<Rightarrow> globals \<Rightarrow> env \<Rightarrow> ulong \<Rightarrow> globals \<times> effect list" where
  "capture_and_send P st e currentTime =
     (case fb_get e of
        None \<Rightarrow> (st, [FbGet None, SerialPrintln ''Camera capture failed''])
      | Some fb \<Rightarrow>
          (case update_fps P st currentTime of (st1, a) \<Rightarrow>
             (st1, [FbGet (Some fb)] @ send_frame P st e fb @ [FbReturn fb] @ a
                     @ pace currentTime (millis_end e))))"

text \<open>Lines 205 to 254: the pass that found the session connected.\<close>

definition stream :: "platform \<Rightarrow> globals \<Rightarrow> env \<Rightarrow> globals \<times> effect list" where
  "stream P st e =
     (let st1 = st\<lparr>connectionAttempts := 0\<rparr>;
          currentTime = millis_start e
      in case heartbeat st1 currentTime of (st2, a1) \<Rightarrow>
           (case capture_and_send P st2 e currentTime of (st3, a2) \<Rightarrow> (st3, a1 @ a2)))"

definition loop :: "platform \<Rightarrow> globals \<Rightarrow> env \<Rightarrow> globals \<times> effect list" where
  "loop P st e =
     (case client_poll st e of (st1, a0) \<Rightarrow>
        if \<not> isConnected st1 then
          (case reconnect st1 e of (st2, a1) \<Rightarrow> (st2, a0 @ a1))
        else
          (case stream P st1 e of (st2, a1) \<Rightarrow> (st2, a0 @ a1)))"

text \<open>Successive passes of \<^verbatim>\<open>loop()\<close>: the globals after them and everything they did.\<close>

fun run :: "platform \<Rightarrow> globals \<Rightarrow> env list \<Rightarrow> globals \<times> effect list" where
  "run P st [] = (st, [])"
| "run P st (e # es) =
     (case loop P st e of (st1, a1) \<Rightarrow>
        (case run P st1 es of (st2, a2) \<Rightarrow> (st2, a1 @ a2)))"

section \<open>Observations on traces and runs\<close>

subsection \<open>Reading a trace\<close>

text \<open>
  The arguments of the delays, the number of connects, the frames obtained and returned,
  the number of calls of the camera, the texts and the binary payloads sent.
\<close>

fun delays :: "effect list \<Rightarrow> ulong list" where
  "delays [] = []"
| "delays (Delay d # tr) = d # delays tr"
| "delays (_ # tr) = delays tr"

fun connects :: "effect list \<Rightarrow> nat" where
  "connects [] = 0"
| "connects (WsConnect h p q # tr) = Suc (connects tr)"
| "connects (_ # tr) = connects tr"

fun acquired :: "effect list \<Rightarrow> camera_fb list" where
  "acquired [] = []"
| "acquired (FbGet (Some fb) # tr) = fb # acquired tr"
| "acquired (_ # tr) = acquired tr"

fun released :: "effect list \<Rightarrow> camera_fb list" where
  "released [] = []"
| "released (FbReturn fb # tr) = fb # released tr"
| "released (_ # tr) = released tr"

fun captures :: "effect list \<Rightarrow> nat" where
  "captures [] = 0"
| "captures (FbGet r # tr) = Suc (captures tr)"
| "captures (_ # tr) = captures tr"

fun texts :: "effect list \<Rightarrow> string list" where
  "texts [] = []"
| "texts (WsSend m # tr) = m # texts tr"
| "texts (_ # tr) = texts tr"

fun binaries :: "effect list \<Rightarrow> (8 word list \<times> ulong) list" where
  "binaries [] = []"
| "binaries (WsSendBinary b n # tr) = (b, n) # binaries tr"
| "binaries (_ # tr) = binaries tr"

text \<open>The lines printed on the serial port.\<close>

fun prints :: "effect list \<Rightarrow> string list" where
  "prints [] = []"
| "prints (SerialPrintln s # tr) = s # prints tr"
| "prints (_ # tr) = prints tr"


subsection \<open>The JSON texts\<close>

text \<open>
  The value of the \<^verbatim>\<open>"type"\<close> member with which every JSON text of the sketch begins:
  the characters between \<^verbatim>\<open>{"type":"\<close> and the next double quote.
\<close>

definition json_type :: "string \<Rightarrow> string" where
  "json_type m = takeWhile (\<lambda>c. c \<noteq> CHR 0x22) (drop 9 m)"

text \<open>The texts of a trace by the \<^verbatim>\<open>"type"\<close> they carry.\<close>

definition texts_of_type :: "string \<Rightarrow> effect list \<Rightarrow> string list" where
  "texts_of_type ty tr = filter (\<lambda>m. json_type m = ty) (texts tr)"

text \<open>The frame rate reports among the printed lines.\<close>

definition fps_reports :: "effect list \<Rightarrow> string list" where
  "fps_reports tr = filter (prefix ''FPS: '') (prints tr)"

text \<open>
  What a receiver reads as the unsigned number of member \<open>key\<close>: the decimal digits that
  follow the first occurrence of \<^verbatim>\<open>"key":\<close>.
\<close>

definition is_digit :: "char \<Rightarrow> bool" where
  "is_digit c = (c \<in> set ''0123456789'')"

fun find_after :: "string \<Rightarrow> string \<Rightarrow> string option" where
  "find_after pat [] = (if pat = [] then Some [] else None)"
| "find_after pat (c # cs) =
     (if prefix pat (c # cs) then Some (drop (length pat) (c # cs)) else find_after pat cs)"

definition json_nat :: "string \<Rightarrow> string \<Rightarrow> nat option" where
  "json_nat key m =
     (case find_after (CHR 0x22 # key @ [CHR 0x22, CHR '':'']) m of
        None \<Rightarrow> None
      | Some r \<Rightarrow>
          (let ds = takeWhile is_digit r
           in if ds = [] then None else Some (read_decimal ds)))"

subsection \<open>Frame ownership and framing\<close>

text \<open>
  The ownership of the frame buffer along a trace. The state is the frame currently held
  (\<open>None\<close> when none is); the result is \<open>None\<close> as soon as a second frame is acquired while
  one is held, or a frame is returned that is not the one held, and otherwise the frame
  held at the end.
\<close>

fun frame_owner :: "camera_fb option \<Rightarrow> effect list \<Rightarrow> camera_fb option option" where
  "frame_owner held [] = Some held"
| "frame_owner held (FbGet None # tr) = frame_owner held tr"
| "frame_owner held (FbGet (Some fb) # tr) =
     (if held = None then frame_owner (Some fb) tr else None)"
| "frame_owner held (FbReturn fb # tr) =
     (if held = Some fb then frame_owner None tr else None)"
| "frame_owner held (_ # tr) = frame_owner held tr"

text \<open>
  The framing of a trace. The state is the size announced by a frame metadata text whose
  binary payload is still due. A trace is well framed when every frame metadata text is
  followed at once by a binary send of the announced size, and no binary send occurs
  otherwise.
\<close>

fun framing :: "nat option \<Rightarrow> effect list \<Rightarrow> bool" where
  "framing due [] = (due = None)"
| "framing due (WsSend m # tr) =
     (due = None \<and>
      (if json_type m = ''frame'' then
         (case json_nat ''size'' m of None \<Rightarrow> False | Some n \<Rightarrow> framing (Some n) tr)
       else framing None tr))"
| "framing due (WsSendBinary b n # tr) = (due = Some (unat n) \<and> framing None tr)"
| "framing due (_ # tr) = (due = None \<and> framing None tr)"

subsection \<open>Runs\<close>

text \<open>
  A run in which every pass finds the session disconnected after polling and every
  connect that is tried fails.
\<close>

fun failing_run :: "platform \<Rightarrow> globals \<Rightarrow> env list \<Rightarrow> bool" where
  "failing_run P st [] = True"
| "failing_run P st (e # es) =
     (\<not> isConnected (fst (client_poll st e)) \<and> \<not> connect_ok e
        \<and> failing_run P (fst (loop P st e)) es)"

text \<open>A run in which every pass finds the session disconnected after polling.\<close>

fun offline_run :: "platform \<Rightarrow> globals \<Rightarrow> env list \<Rightarrow> bool" where
  "offline_run P st [] = True"
| "offline_run P st (e # es) =
     (\<not> isConnected (fst (client_poll st e)) \<and> offline_run P (fst (loop P st e)) es)"

text \<open>Whether a pass sends a heartbeat, and whether it reports the frame rate.\<close>

definition heartbeat_sent :: "platform \<Rightarrow> globals \<Rightarrow> env \<Rightarrow> bool" where
  "heartbeat_sent P st e = (texts_of_type ''heartbeat'' (snd (loop P st e)) \<noteq> [])"

definition fps_reported :: "platform \<Rightarrow> globals \<Rightarrow> env \<Rightarrow> bool" where
  "fps_reported P st e = (fps_reports (snd (loop P st e)) \<noteq> [])"

subsection \<open>Runs against the clock\<close>

text \<open>
  \<^verbatim>\<open>millis()\<close> is the time since boot in milliseconds, reduced modulo \<open>2^32\<close>. A clocked run
  pairs every pass with that time (unreduced) at its reading of line 208.
\<close>

definition clocked :: "(nat \<times> env) list \<Rightarrow> bool" where
  "clocked tes = list_all (\<lambda>te. millis_start (snd te) = of_nat (fst te)) tes"

text \<open>The times of the passes of a clocked run in which \<open>fired\<close> holds.\<close>

fun fire_times :: "(globals \<Rightarrow> env \<Rightarrow> bool) \<Rightarrow> platform \<Rightarrow> globals \<Rightarrow> (nat \<times> env) list \<Rightarrow> nat list" where
  "fire_times fired P st [] = []"
| "fire_times fired P st (te # tes) =
     (if fired st (snd te) then [fst te] else []) @ fire_times fired P (fst (loop P st (snd te))) tes"

text \<open>The values of a global after the passes of a run in which \<open>fired\<close> holds.\<close>

fun fire_marks :: "(globals \<Rightarrow> env \<Rightarrow> bool) \<Rightarrow> (globals \<Rightarrow> ulong) \<Rightarrow> platform \<Rightarrow> globals \<Rightarrow> env list \<Rightarrow> ulong list" where
  "fire_marks fired mark P st [] = []"
| "fire_marks fired mark P st (e # es) =
     (if fired st e then [mark (fst (loop P st e))] else [])
       @ fire_marks fired mark P (fst (loop P st e)) es"

section \<open>Concrete inputs\<close>

text \<open>An idealised platform, without rounding error, to evaluate the model on inputs.\<close>

definition exact_platform :: platform where
  "exact_platform =
     \<lparr>float_round = (\<lambda>x. x),
      String_float2 = (\<lambda>x. decimal (nat \<lfloor>x\<rfloor>) @ ''.''
                            @ decimal (nat \<lfloor>x * 10\<rfloor> mod 10) @ decimal (nat \<lfloor>x * 100\<rfloor> mod 10))\<rparr>"

text \<open>A pass in which nothing arrives, the server refuses the connection and no frame is ready.\<close>

definition down_env :: env where
  "down_env =
     \<lparr>poll_events = [], macAddress = ''24:6F:28:AA:BB:CC'', connect_ok = False,
      millis_start = 0, millis_meta = 0, millis_end = 0, fb_get = None\<rparr>"

text \<open>
  The server accepts the connection; the connection is reported closed at the next poll;
  a connected pass that obtains a small JPEG frame and takes 10 ms.
\<close>

definition accept_env :: env where
  "accept_env = down_env\<lparr>connect_ok := True\<rparr>"

definition drop_env :: env where
  "drop_env = down_env\<lparr>poll_events := [(ConnectionClosed, [])]\<rparr>"

definition small_frame :: camera_fb where
  "small_frame = \<lparr>buf = [255, 216, 255, 217], len = 4, width = 320, height = 240\<rparr>"

definition frame_env :: env where
  "frame_env =
     \<lparr>poll_events = [], macAddress = ''24:6F:28:AA:BB:CC'', connect_ok = False,
      millis_start = 1000, millis_meta = 1002, millis_end = 1010, fb_get = Some small_frame\<rparr>"

text \<open>A pass at a given clock reading in which nothing arrives and no frame is ready.\<close>

definition idle_env :: "ulong \<Rightarrow> env" where
  "idle_env t = down_env\<lparr>millis_start := t\<rparr>"

text \<open>A pass at a given clock reading in which nothing arrives and a small frame is ready.\<close>

definition frame_at :: "ulong \<Rightarrow> env" where
  "frame_at t = frame_env\<lparr>millis_start := t, millis_meta := t, millis_end := t\<rparr>"

section \<open>The connection test sketch (test\_connection\_simple.cpp)\<close>

text \<open>
  Its globals and its event callback. The sketch has a flag and a callback of the same
  names as the streaming sketch; they carry a prime here.
\<close>

record session =
  isConnected' :: bool
  isAuthenticated :: bool

definition device_info_json :: string where
  \<open>device_info_json = ''{"type":"device_info","device":"esp32cam","version":"1.0"}''\<close>

definition onEventsCallback' :: "session \<Rightarrow> WebsocketsEvent \<times> string \<Rightarrow> session \<times> effect list" where
  "onEventsCallback' st ev =
     (case ev of (event, data) \<Rightarrow>
        if event = ConnectionOpened then
          (st\<lparr>isConnected' := True, isAuthenticated := False\<rparr>,
           [SerialPrintln ''WebSocket connection opened''])
        else if event = ConnectionClosed then
          (st\<lparr>isConnected' := False, isAuthenticated := False\<rparr>,
           [SerialPrintln ''WebSocket connection closed''])
        else if event = GotPing then (st, [SerialPrintln ''Received Ping'', WsPong])
        else if event = GotPong then (st, [SerialPrintln ''Received Pong''])
        else if length data > 0 then
          (if \<not> isAuthenticated st then
             (if indexOf data ''connection_ack'' \<noteq> -1 then
                (st\<lparr>isAuthenticated := True\<rparr>,
                 [SerialPrintln (''Received message: '' @ data),
                  SerialPrintln ''Authentication successful!'',
                  WsSend device_info_json])
              else (st, [SerialPrintln (''Received message: '' @ data)]))
           else (st, [SerialPrintln (''Received message: '' @ data)]))
        else (st, []))"

section \<open>Basic facts about the model\<close>

lemma fst_dispatch_Cons:
  "fst (dispatch st (ev # evs)) = fst (dispatch (fst (onEventsCallback st ev)) evs)"
  by (simp split: prod.splits)

lemma snd_dispatch_Cons:
  "snd (dispatch st (ev # evs)) =
     snd (onEventsCallback st ev) @ snd (dispatch (fst (onEventsCallback st ev)) evs)"
  by (simp split: prod.splits)

lemma callback_keeps:
  "connectionAttempts (fst (onEventsCallback st ev)) = connectionAttempts st"
  "lastHeartbeat (fst (onEventsCallback st ev)) = lastHeartbeat st"
  "lastFrameTime (fst (onEventsCallback st ev)) = lastFrameTime st"
  "frameCount (fst (onEventsCallback st ev)) = frameCount st"
  "fps (fst (onEventsCallback st ev)) = fps st"
  by (simp_all add: onEventsCallback_def)

lemma dispatch_keeps:
  "connectionAttempts (fst (dispatch st evs)) = connectionAttempts st"
  "lastHeartbeat (fst (dispatch st evs)) = lastHeartbeat st"
  "lastFrameTime (fst (dispatch st evs)) = lastFrameTime st"
  "frameCount (fst (dispatch st evs)) = frameCount st"
  "fps (fst (dispatch st evs)) = fps st"
  by (induction evs arbitrary: st; simp add: fst_dispatch_Cons callback_keeps del: dispatch.simps(2))+

lemma client_poll_keeps:
  "connectionAttempts (fst (client_poll st e)) = connectionAttempts st"
  "lastHeartbeat (fst (client_poll st e)) = lastHeartbeat st"
  "lastFrameTime (fst (client_poll st e)) = lastFrameTime st"
  "frameCount (fst (client_poll st e)) = frameCount st"
  "fps (fst (client_poll st e)) = fps st"
  by (simp_all add: client_poll_def dispatch_keeps case_prod_beta)

lemma fst_client_poll: "fst (client_poll st e) = fst (dispatch st (poll_events e))"
  by (simp add: client_poll_def case_prod_beta)

lemma snd_client_poll: "snd (client_poll st e) = WsPoll # snd (dispatch st (poll_events e))"
  by (simp add: client_poll_def case_prod_beta)

lemma loop_disconnected:
  "\<not> isConnected (fst (client_poll st e)) \<Longrightarrow>
     loop P st e = (fst (reconnect (fst (client_poll st e)) e),
                    snd (client_poll st e) @ snd (reconnect (fst (client_poll st e)) e))"
  by (simp add: loop_def case_prod_beta)

lemma loop_connected:
  "isConnected (fst (client_poll st e)) \<Longrightarrow>
     loop P st e = (fst (stream P (fst (client_poll st e)) e),
                    snd (client_poll st e) @ snd (stream P (fst (client_poll st e)) e))"
  by (simp add: loop_def case_prod_beta)

lemma delays_append [simp]: "delays (xs @ ys) = delays xs @ delays ys"
  by (induction xs rule: delays.induct) simp_all
lemma connects_append [simp]: "connects (xs @ ys) = connects xs + connects ys"
  by (induction xs rule: connects.induct) simp_all
lemma acquired_append [simp]: "acquired (xs @ ys) = acquired xs @ acquired ys"
  by (induction xs rule: acquired.induct) simp_all
lemma released_append [simp]: "released (xs @ ys) = released xs @ released ys"
  by (induction xs rule: released.induct) simp_all
lemma captures_append [simp]: "captures (xs @ ys) = captures xs + captures ys"
  by (induction xs rule: captures.induct) simp_all
lemma texts_append [simp]: "texts (xs @ ys) = texts xs @ texts ys"
  by (induction xs rule: texts.induct) simp_all
lemma binaries_append [simp]: "binaries (xs @ ys) = binaries xs @ binaries ys"
  by (induction xs rule: binaries.induct) simp_all

lemma sendLog_quiet [simp]:
  "delays (sendLog st m) = []" "connects (sendLog st m) = 0" "acquired (sendLog st m) = []"
  "released (sendLog st m) = []" "captures (sendLog st m) = 0" "binaries (sendLog st m) = []"
  by (simp_all add: sendLog_def)

lemma callback_quiet:
  "delays (snd (onEventsCallback st ev)) = []" "connects (snd (onEventsCallback st ev)) = 0"
  "acquired (snd (onEventsCallback st ev)) = []" "released (snd (onEventsCallback st ev)) = []"
  "captures (snd (onEventsCallback st ev)) = 0" "binaries (snd (onEventsCallback st ev)) = []"
  by (simp_all add: onEventsCallback_def)

lemma dispatch_quiet:
  "delays (snd (dispatch st evs)) = []" "connects (snd (dispatch st evs)) = 0"
  "acquired (snd (dispatch st evs)) = []" "released (snd (dispatch st evs)) = []"
  "captures (snd (dispatch st evs)) = 0" "binaries (snd (dispatch st evs)) = []"
  by (induction evs arbitrary: st; simp add: snd_dispatch_Cons callback_quiet del: dispatch.simps(2))+

lemma client_poll_quiet:
  "delays (snd (client_poll st e)) = []" "connects (snd (client_poll st e)) = 0"
  "acquired (snd (client_poll st e)) = []" "released (snd (client_poll st e)) = []"
  "captures (snd (client_poll st e)) = 0" "binaries (snd (client_poll st e)) = []"
  by (simp_all add: snd_client_poll dispatch_quiet)

lemma reconnect_short:
  assumes "connectionAttempts st < MAX_CONNECTION_ATTEMPTS"
  shows "connectionAttempts (fst (reconnect st e)) = connectionAttempts st + 1"
    and "isConnected (fst (reconnect st e)) = connect_ok e"
    and "delays (snd (reconnect st e)) = [5000]"
    and "connects (snd (reconnect st e)) = 1"
  using assms by (simp_all add: reconnect_def connectWebSocket_def case_prod_beta Let_def)

lemma reconnect_long:
  assumes "\<not> connectionAttempts st < MAX_CONNECTION_ATTEMPTS"
  shows "connectionAttempts (fst (reconnect st e)) = 0"
    and "isConnected (fst (reconnect st e)) = isConnected st"
    and "delays (snd (reconnect st e)) = [30000]"
    and "connects (snd (reconnect st e)) = 0"
  using assms by (simp_all add: reconnect_def)

lemma reconnect_keeps:
  "lastHeartbeat (fst (reconnect st e)) = lastHeartbeat st"
  "lastFrameTime (fst (reconnect st e)) = lastFrameTime st"
  "frameCount (fst (reconnect st e)) = frameCount st"
  "fps (fst (reconnect st e)) = fps st"
  by (simp_all add: reconnect_def connectWebSocket_def case_prod_beta Let_def)

lemma attempts_step:
  assumes "k < 5"
  shows "(of_nat k :: ulong) < MAX_CONNECTION_ATTEMPTS" and "(of_nat k :: ulong) + 1 = of_nat (Suc k)"
  using assms by (simp_all add: MAX_CONNECTION_ATTEMPTS_def word_less_nat_alt unat_of_nat)

lemma attempts_full: "\<not> (of_nat 5 :: ulong) < MAX_CONNECTION_ATTEMPTS"
  by (simp add: MAX_CONNECTION_ATTEMPTS_def)

lemma fst_run_Cons: "fst (run P st (e # es)) = fst (run P (fst (loop P st e)) es)"
  by (simp add: case_prod_beta)

lemma snd_run_Cons:
  "snd (run P st (e # es)) = snd (loop P st e) @ snd (run P (fst (loop P st e)) es)"
  by (simp add: case_prod_beta)

lemma mod6_shift: "(5 + Suc i) mod 6 = i mod 6"
  by presburger

lemma failing_run_schedule:
  assumes "failing_run P st es" and "connectionAttempts st = of_nat k" and "k \<le> 5"
  shows "connectionAttempts (fst (run P st es)) = of_nat ((k + length es) mod 6)
       \<and> delays (snd (run P st es))
           = map (\<lambda>i. if (k + i) mod 6 = 5 then 30000 else 5000) [0..<length es]
       \<and> connects (snd (run P st es))
           = sum_list (map (\<lambda>i. if (k + i) mod 6 = 5 then 0 else 1) [0..<length es])"
  using assms
proof (induction es arbitrary: st k)
  case Nil
  then show ?case by simp
next
  case (Cons e es)
  let ?st0 = "fst (client_poll st e)"
  let ?st1 = "fst (loop P st e)"
  from Cons.prems have down: "\<not> isConnected ?st0" and nok: "\<not> connect_ok e"
    and rest: "failing_run P ?st1 es" by simp_all
  have att0: "connectionAttempts ?st0 = of_nat k"
    using Cons.prems(2) by (simp add: client_poll_keeps)
  show ?case
  proof (cases "k < 5")
    case True
    have lt: "connectionAttempts ?st0 < MAX_CONNECTION_ATTEMPTS"
      using att0 attempts_step(1)[OF True] by simp
    have c1: "connectionAttempts ?st1 = of_nat (Suc k)"
      using down reconnect_short(1)[OF lt] att0 attempts_step(2)[OF True]
      by (simp add: loop_disconnected)
    have d1: "delays (snd (loop P st e)) = [5000]" and n1: "connects (snd (loop P st e)) = 1"
      using down reconnect_short(3,4)[OF lt] by (simp_all add: loop_disconnected client_poll_quiet)
    from True have k6: "k mod 6 \<noteq> 5" by simp
    have "Suc k \<le> 5" using True by simp
    from Cons.IH[OF rest c1 this] k6 show ?thesis
      by (simp add: fst_run_Cons snd_run_Cons d1 n1 map_upt_Suc del: run.simps(2) upt_Suc)
  next
    case False
    with Cons.prems(3) have k5: "k = 5" by simp
    have ge: "\<not> connectionAttempts ?st0 < MAX_CONNECTION_ATTEMPTS"
      using att0 attempts_full k5 by simp
    have c1: "connectionAttempts ?st1 = of_nat 0"
      using down reconnect_long(1)[OF ge] by (simp add: loop_disconnected)
    have d1: "delays (snd (loop P st e)) = [30000]" and n1: "connects (snd (loop P st e)) = 0"
      using down reconnect_long(3,4)[OF ge] by (simp_all add: loop_disconnected client_poll_quiet)
    from Cons.IH[OF rest c1] k5 show ?thesis
      by (simp add: fst_run_Cons snd_run_Cons d1 n1 map_upt_Suc mod6_shift del: run.simps(2) upt_Suc)
  qed
qed

lemma loop_down_env:
  "c < MAX_CONNECTION_ATTEMPTS \<Longrightarrow>
   fst (loop P (initial_globals\<lparr>connectionAttempts := c\<rparr>) down_env)
     = initial_globals\<lparr>connectionAttempts := c + 1\<rparr>"
  "\<not> c < MAX_CONNECTION_ATTEMPTS \<Longrightarrow>
   fst (loop P (initial_globals\<lparr>connectionAttempts := c\<rparr>) down_env)
     = initial_globals\<lparr>connectionAttempts := 0\<rparr>"
  "fst (client_poll (initial_globals\<lparr>connectionAttempts := c\<rparr>) down_env) = initial_globals\<lparr>connectionAttempts := c\<rparr>"
  by (simp_all add: loop_def client_poll_def reconnect_def connectWebSocket_def down_env_def
        initial_globals_def Let_def)

lemma failing_run_down_env:
  "failing_run P (initial_globals\<lparr>connectionAttempts := c\<rparr>) (replicate n down_env)"
proof (induction n arbitrary: c)
  case 0
  show ?case by simp
next
  case (Suc n)
  have "\<not> connect_ok down_env" by (simp add: down_env_def)
  moreover have "\<not> isConnected (initial_globals\<lparr>connectionAttempts := c\<rparr>)"
    by (simp add: initial_globals_def)
  ultimately show ?case
    using Suc[of "c + 1"] Suc[of 0]
    by (cases "c < MAX_CONNECTION_ATTEMPTS") (simp_all add: loop_down_env)
qed

lemma pace_idle:
  assumes "millis_now - currentTime \<le> 0xFFFFFFDE"
  shows "pace currentTime millis_now = []"
proof -
  have e: "millis_now - (currentTime - 33) = (millis_now - currentTime) + 33" by simp
  have "unat (millis_now - currentTime) \<le> 4294967262"
    using assms by (simp add: word_le_nat_alt)
  then have "unat ((millis_now - currentTime) + 33) = unat (millis_now - currentTime) + 33"
    by (simp add: unat_word_ariths)
  then have "\<not> (millis_now - currentTime) + 33 < 33"
    by (simp add: word_less_nat_alt)
  then show ?thesis unfolding pace_def Let_def e by simp
qed

lemma heartbeat_quiet:
  "delays (snd (heartbeat st t)) = []" "connects (snd (heartbeat st t)) = 0"
  "acquired (snd (heartbeat st t)) = []" "released (snd (heartbeat st t)) = []"
  "captures (snd (heartbeat st t)) = 0" "binaries (snd (heartbeat st t)) = []"
  by (simp_all add: heartbeat_def)

lemma update_fps_quiet:
  "delays (snd (update_fps P st t)) = []" "connects (snd (update_fps P st t)) = 0"
  "acquired (snd (update_fps P st t)) = []" "released (snd (update_fps P st t)) = []"
  "captures (snd (update_fps P st t)) = 0" "binaries (snd (update_fps P st t)) = []"
  by (simp_all add: update_fps_def Let_def)

lemma send_frame_quiet:
  "delays (send_frame P st e fb) = []" "connects (send_frame P st e fb) = 0"
  "acquired (send_frame P st e fb) = []" "released (send_frame P st e fb) = []"
  "captures (send_frame P st e fb) = 0"
  by (simp_all add: send_frame_def)

lemma snd_stream:
  "snd (stream P st e) =
     snd (heartbeat (st\<lparr>connectionAttempts := 0\<rparr>) (millis_start e))
       @ snd (capture_and_send P (fst (heartbeat (st\<lparr>connectionAttempts := 0\<rparr>) (millis_start e)))
                e (millis_start e))"
  by (simp add: stream_def Let_def case_prod_beta)

lemma fst_stream:
  "fst (stream P st e) =
     fst (capture_and_send P (fst (heartbeat (st\<lparr>connectionAttempts := 0\<rparr>) (millis_start e)))
                e (millis_start e))"
  by (simp add: stream_def Let_def case_prod_beta)

lemma capture_None:
  "fb_get e = None \<Longrightarrow>
     capture_and_send P st e t = (st, [FbGet None, SerialPrintln ''Camera capture failed''])"
  by (simp add: capture_and_send_def)

lemma capture_Some:
  "fb_get e = Some fb \<Longrightarrow>
     capture_and_send P st e t =
       (fst (update_fps P st t),
        [FbGet (Some fb)] @ send_frame P st e fb @ [FbReturn fb] @ snd (update_fps P st t)
          @ pace t (millis_end e))"
  by (simp add: capture_and_send_def case_prod_beta)

lemma delays_loop_connected:
  assumes "isConnected (fst (client_poll st e))"
  shows "delays (snd (loop P st e)) =
           (case fb_get e of None \<Rightarrow> [] | Some fb \<Rightarrow> delays (pace (millis_start e) (millis_end e)))"
  using assms
  by (cases "fb_get e")
     (simp_all add: loop_connected snd_stream capture_None capture_Some client_poll_quiet
        heartbeat_quiet update_fps_quiet send_frame_quiet)

lemma connected_pass_resets:
  assumes "isConnected (fst (client_poll st e))"
  shows "connectionAttempts (fst (loop P st e)) = 0"
proof (cases "fb_get e")
  case None
  with assms show ?thesis
    by (simp add: loop_connected fst_stream capture_None heartbeat_def)
next
  case (Some fb)
  with assms show ?thesis
    by (simp add: loop_connected fst_stream capture_Some heartbeat_def update_fps_def Let_def)
qed

lemma json_types [simp]:
  "json_type (log_json x) = ''log''"
  "json_type (heartbeat_json t) = ''heartbeat''"
  "json_type (metadata_json P fb t f) = ''frame''"
  "json_type connect_json = ''connection''"
  by (simp_all add: json_type_def log_json_def heartbeat_json_def metadata_json_def connect_json_def)

lemma texts_of_type_append [simp]:
  "texts_of_type ty (xs @ ys) = texts_of_type ty xs @ texts_of_type ty ys"
  by (simp add: texts_of_type_def)

lemma texts_of_type_Nil [simp]: "texts_of_type ty [] = []"
  by (simp add: texts_of_type_def)

lemma sendLog_texts:
  "texts (sendLog st m) = (if isConnected st then [log_json m] else [])"
  by (simp add: sendLog_def)

lemma sendLog_types:
  "ty \<noteq> ''log'' \<Longrightarrow> texts_of_type ty (sendLog st m) = []"
  by (auto simp add: texts_of_type_def sendLog_texts)

lemma callback_types:
  "ty \<noteq> ''log'' \<Longrightarrow> texts_of_type ty (snd (onEventsCallback st ev)) = []"
  by (simp add: onEventsCallback_def sendLog_types)

lemma dispatch_types:
  "ty \<noteq> ''log'' \<Longrightarrow> texts_of_type ty (snd (dispatch st evs)) = []"
  by (induction evs arbitrary: st) (simp_all add: snd_dispatch_Cons callback_types del: dispatch.simps(2))

lemma client_poll_types:
  "ty \<noteq> ''log'' \<Longrightarrow> texts_of_type ty (snd (client_poll st e)) = []"
  by (simp add: snd_client_poll dispatch_types texts_of_type_def[of ty "WsPoll # _"])
     (simp add: texts_of_type_def[symmetric] dispatch_types)

lemma reconnect_texts:
  "\<not> isConnected st \<Longrightarrow>
     texts (snd (reconnect st e)) =
       (if connectionAttempts st < MAX_CONNECTION_ATTEMPTS \<and> connect_ok e then [connect_json] else [])"
  by (simp add: reconnect_def connectWebSocket_def Let_def sendLog_def)

lemma reconnect_quiet:
  "acquired (snd (reconnect st e)) = []" "released (snd (reconnect st e)) = []"
  "captures (snd (reconnect st e)) = 0" "binaries (snd (reconnect st e)) = []"
  by (simp_all add: reconnect_def connectWebSocket_def Let_def case_prod_beta)

lemma frame_owner_append:
  "frame_owner held (xs @ ys) =
     (case frame_owner held xs of None \<Rightarrow> None | Some h \<Rightarrow> frame_owner h ys)"
  by (induction held xs rule: frame_owner.induct) simp_all

lemma frame_owner_quiet:
  "captures tr = 0 \<Longrightarrow> released tr = [] \<Longrightarrow> frame_owner held tr = Some held"
  by (induction held tr rule: frame_owner.induct) simp_all

lemma loop_quiet_disconnected:
  assumes "\<not> isConnected (fst (client_poll st e))"
  shows "captures (snd (loop P st e)) = 0" "acquired (snd (loop P st e)) = []"
    "released (snd (loop P st e)) = []" "binaries (snd (loop P st e)) = []"
  using assms by (simp_all add: loop_disconnected client_poll_quiet reconnect_quiet)

lemma loop_types_disconnected:
  assumes "\<not> isConnected (fst (client_poll st e))" and "ty \<noteq> ''log''" and "ty \<noteq> ''connection''"
  shows "texts_of_type ty (snd (loop P st e)) = []"
proof -
  have "texts_of_type ty (snd (reconnect (fst (client_poll st e)) e)) = []"
    using assms(3) by (simp add: texts_of_type_def reconnect_texts[OF assms(1)])
  then show ?thesis
    using assms by (simp add: loop_disconnected client_poll_types)
qed

lemma loop_keeps_disconnected:
  assumes "\<not> isConnected (fst (client_poll st e))"
  shows "lastHeartbeat (fst (loop P st e)) = lastHeartbeat st"
    "lastFrameTime (fst (loop P st e)) = lastFrameTime st"
    "frameCount (fst (loop P st e)) = frameCount st"
    "fps (fst (loop P st e)) = fps st"
  using assms by (simp_all add: loop_disconnected reconnect_keeps client_poll_keeps)

lemma offline_run_silent:
  assumes "offline_run P st es"
  shows "captures (snd (run P st es)) = 0 \<and> binaries (snd (run P st es)) = []
       \<and> texts_of_type ''frame'' (snd (run P st es)) = []
       \<and> texts_of_type ''heartbeat'' (snd (run P st es)) = []"
  using assms
proof (induction es arbitrary: st)
  case Nil
  show ?case by simp
next
  case (Cons e es)
  then have d: "\<not> isConnected (fst (client_poll st e))"
    and r: "offline_run P (fst (loop P st e)) es" by simp_all
  from Cons.IH[OF r] show ?case
    by (simp add: snd_run_Cons loop_quiet_disconnected[OF d] loop_types_disconnected[OF d]
          del: run.simps(2))
qed

lemma frame_owner_capture:
  "frame_owner None (snd (capture_and_send P st e t)) = Some None"
proof (cases "fb_get e")
  case None
  then show ?thesis by (simp add: capture_None)
next
  case (Some fb)
  have q: "frame_owner h (send_frame P st e fb) = Some h"
    "frame_owner h (snd (update_fps P st t)) = Some h"
    "frame_owner h (pace t (millis_end e)) = Some h" for h
    by (simp_all add: frame_owner_quiet send_frame_quiet update_fps_quiet pace_def Let_def)
  show ?thesis
    by (simp add: capture_Some[OF Some] frame_owner_append q)
qed

lemma capture_frames:
  "acquired (snd (capture_and_send P st e t)) = (case fb_get e of None \<Rightarrow> [] | Some fb \<Rightarrow> [fb])"
  "released (snd (capture_and_send P st e t)) = (case fb_get e of None \<Rightarrow> [] | Some fb \<Rightarrow> [fb])"
  "captures (snd (capture_and_send P st e t)) = 1"
  by (cases "fb_get e";
      simp add: capture_None capture_Some send_frame_quiet update_fps_quiet pace_def Let_def)+

lemma frame_owner_loop: "frame_owner None (snd (loop P st e)) = Some None"
proof (cases "isConnected (fst (client_poll st e))")
  case True
  have "frame_owner None (snd (client_poll st e)) = Some None"
    "frame_owner None (snd (heartbeat s t)) = Some None" for s t
    by (simp_all add: frame_owner_quiet client_poll_quiet heartbeat_quiet)
  then show ?thesis
    by (simp add: loop_connected[OF True] snd_stream frame_owner_append frame_owner_capture)
next
  case False
  then show ?thesis
    by (simp add: frame_owner_quiet loop_quiet_disconnected)
qed

lemma loop_frames:
  "acquired (snd (loop P st e)) =
     (if isConnected (fst (client_poll st e)) then (case fb_get e of None \<Rightarrow> [] | Some fb \<Rightarrow> [fb])
      else [])"
  "released (snd (loop P st e)) = acquired (snd (loop P st e))"
  by (cases "isConnected (fst (client_poll st e))";
      simp add: loop_connected snd_stream capture_frames client_poll_quiet heartbeat_quiet
        loop_quiet_disconnected)+

lemma frame_owner_run: "frame_owner None (snd (run P st es)) = Some None"
  by (induction es arbitrary: st)
     (simp_all add: snd_run_Cons frame_owner_append frame_owner_loop del: run.simps(2))

lemma run_frames: "released (snd (run P st es)) = acquired (snd (run P st es))"
  by (induction es arbitrary: st) (simp_all add: snd_run_Cons loop_frames del: run.simps(2))

lemma digit_char_is_digit: "is_digit (digit_char d)"
  by (simp add: is_digit_def digit_char_def del: set_simps)

lemma digit_val_digit_char: "digit_val (digit_char d) = d mod 10"
proof -
  have "\<forall>k \<in> {..<10::nat}. digit_val (''0123456789'' ! k) = k"
    by (simp add: lessThan_nat_numeral lessThan_Suc)
  moreover have "d mod 10 \<in> {..<10::nat}" by simp
  ultimately show ?thesis unfolding digit_char_def by blast
qed

lemma decimal_digits: "c \<in> set (decimal n) \<Longrightarrow> is_digit c"
proof (induction n rule: decimal.induct)
  case (1 n)
  then show ?case
    by (subst (asm) (2) decimal.simps) (auto simp add: digit_char_is_digit split: if_splits)
qed

lemma decimal_not_Nil: "decimal n \<noteq> []"
  by (subst decimal.simps) simp

lemma read_decimal_snoc: "read_decimal (s @ [c]) = 10 * read_decimal s + digit_val c"
  by (simp add: read_decimal_def)

lemma read_decimal_decimal: "read_decimal (decimal n) = n"
proof (induction n rule: decimal.induct)
  case (1 n)
  show ?case
  proof (cases "n < 10")
    case True
    then show ?thesis
      by (subst decimal.simps) (simp add: read_decimal_def digit_val_digit_char del: digit_val.simps)
  next
    case False
    with 1 show ?thesis
      by (subst decimal.simps) (simp add: read_decimal_snoc digit_val_digit_char del: digit_val.simps)
  qed
qed

lemma find_after_skip_decimal:
  "find_after (CHR 0x22 # p) (decimal n @ rest) = find_after (CHR 0x22 # p) rest"
proof -
  have "\<forall>c \<in> set ds. is_digit c \<Longrightarrow>
          find_after (CHR 0x22 # p) (ds @ rest) = find_after (CHR 0x22 # p) rest" for ds
    by (induction ds) (auto simp add: is_digit_def)
  then show ?thesis using decimal_digits by blast
qed

lemma takeWhile_decimal:
  "\<not> is_digit c \<Longrightarrow> takeWhile is_digit (decimal n @ c # rest) = decimal n"
  by (simp add: takeWhile_append2 decimal_digits)

lemma metadata_reports:
  "json_nat ''size'' (metadata_json P fb t f) = Some (unat (len fb))"
  "json_nat ''width'' (metadata_json P fb t f) = Some (unat (width fb))"
  "json_nat ''height'' (metadata_json P fb t f) = Some (unat (height fb))"
  by (simp_all add: json_nat_def metadata_json_def String_ulong_def find_after_skip_decimal
        takeWhile_decimal is_digit_def decimal_not_Nil read_decimal_decimal)

lemma framing_append:
  "framing due xs \<Longrightarrow> framing None ys \<Longrightarrow> framing due (xs @ ys)"
  by (induction due xs rule: framing.induct) (auto split: option.splits)

lemma texts_of_type_Cons:
  "texts_of_type ty (a # tr) =
     (case a of WsSend m \<Rightarrow> (if json_type m = ty then [m] else []) | _ \<Rightarrow> []) @ texts_of_type ty tr"
  by (cases a) (simp_all add: texts_of_type_def)

lemma framing_quiet:
  "binaries tr = [] \<Longrightarrow> texts_of_type ''frame'' tr = [] \<Longrightarrow> framing None tr"
  by (induction tr rule: binaries.induct) (auto simp add: texts_of_type_Cons split: if_splits)

lemma heartbeat_types:
  "ty \<noteq> ''heartbeat'' \<Longrightarrow> texts_of_type ty (snd (heartbeat st t)) = []"
  by (simp add: heartbeat_def texts_of_type_def)

lemma update_fps_types:
  "ty \<noteq> ''log'' \<Longrightarrow> texts_of_type ty (snd (update_fps P st t)) = []"
  by (simp add: update_fps_def Let_def sendLog_types)

lemma heartbeat_keeps:
  "isConnected (fst (heartbeat st t)) = isConnected st"
  "fps (fst (heartbeat st t)) = fps st"
  "frameCount (fst (heartbeat st t)) = frameCount st"
  "lastFrameTime (fst (heartbeat st t)) = lastFrameTime st"
  "connectionAttempts (fst (heartbeat st t)) = connectionAttempts st"
  by (simp_all add: heartbeat_def)

lemma framing_send_frame:
  "framing None (send_frame P st e fb)"
  by (simp add: send_frame_def metadata_reports)

lemma framing_capture: "framing None (snd (capture_and_send P st e t))"
proof (cases "fb_get e")
  case None
  then show ?thesis by (simp add: capture_None)
next
  case (Some fb)
  have "framing None (snd (update_fps P st t))" "framing None (pace t (millis_end e))"
    by (simp_all add: framing_quiet update_fps_quiet update_fps_types pace_def Let_def)
  then have "framing None ([FbReturn fb] @ snd (update_fps P st t) @ pace t (millis_end e))"
    by (simp add: framing_append)
  with framing_send_frame[of P st e fb]
  have "framing None (send_frame P st e fb @ [FbReturn fb] @ snd (update_fps P st t) @ pace t (millis_end e))"
    by (rule framing_append)
  then show ?thesis by (simp add: capture_Some[OF Some])
qed

lemma framing_loop: "framing None (snd (loop P st e))"
proof (cases "isConnected (fst (client_poll st e))")
  case True
  have "framing None (snd (client_poll st e))" "framing None (snd (heartbeat s t))" for s t
    by (simp_all add: framing_quiet client_poll_quiet client_poll_types heartbeat_quiet heartbeat_types)
  then show ?thesis
    by (simp add: loop_connected[OF True] snd_stream framing_append framing_capture)
next
  case False
  then show ?thesis
    by (simp add: framing_quiet loop_quiet_disconnected loop_types_disconnected)
qed

lemma framing_run: "framing None (snd (run P st es))"
  by (induction es arbitrary: st)
     (simp_all add: snd_run_Cons framing_append framing_loop del: run.simps(2))

lemma loop_frame_trace:
  assumes c: "isConnected (fst (client_poll st e))" and f: "fb_get e = Some fb"
  shows "snd (loop P st e) =
           (snd (client_poll st e)
              @ snd (heartbeat (fst (client_poll st e)\<lparr>connectionAttempts := 0\<rparr>) (millis_start e))
              @ [FbGet (Some fb)])
           @ [WsSend (metadata_json P fb (millis_meta e) (fps st)), WsSendBinary (buf fb) (len fb)]
           @ ([FbReturn fb]
              @ snd (update_fps P (fst (heartbeat (fst (client_poll st e)\<lparr>connectionAttempts := 0\<rparr>)
                                         (millis_start e))) (millis_start e))
              @ pace (millis_start e) (millis_end e))"
  using c
  by (simp add: loop_connected[OF c] snd_stream capture_Some[OF f] send_frame_def heartbeat_keeps
        client_poll_keeps)

lemma indexOf_from_found:
  "0 \<le> i \<Longrightarrow> indexOf_from i s pat \<noteq> -1 \<longleftrightarrow> sublist pat s"
proof (induction s arbitrary: i)
  case Nil
  then show ?case by auto
next
  case (Cons c cs)
  from Cons.prems have "0 \<le> i + 1" by simp
  from Cons.IH[OF this] Cons.prems show ?case
    by (auto simp add: sublist_Cons_right)
qed

lemma indexOf_found:
  "pat \<noteq> [] \<Longrightarrow> indexOf s pat \<noteq> -1 \<longleftrightarrow> sublist pat s"
  by (auto simp add: indexOf_def indexOf_from_found)

lemma elapsed_on_clock:
  assumes "T0 \<le> T" and "d \<le> unat ((of_nat T :: ulong) - of_nat T0)"
  shows "T0 + d \<le> T"
proof -
  have "(of_nat T :: ulong) - of_nat T0 = of_nat (T - T0)"
    using assms(1) by simp
  then have "unat ((of_nat T :: ulong) - of_nat T0) \<le> T - T0"
    by (simp add: unat_of_nat)
  with assms show ?thesis by linarith
qed

lemma fire_times_after:
  assumes fire: "\<And>st e. fired st e \<Longrightarrow>
                   d \<le> unat (millis_start e - mark st) \<and> mark (fst (loop P st e)) = millis_start e"
    and rest: "\<And>st e. \<not> fired st e \<Longrightarrow> mark (fst (loop P st e)) = mark st"
  shows "clocked tes \<Longrightarrow> sorted (map fst tes) \<Longrightarrow> mark st = of_nat T0
          \<Longrightarrow> \<forall>T \<in> set (map fst tes). T0 \<le> T
          \<Longrightarrow> \<forall>T \<in> set (fire_times fired P st tes). T0 + d \<le> T"
proof (induction tes arbitrary: st T0)
  case Nil
  show ?case by simp
next
  case (Cons te tes)
  obtain T e where te: "te = (T, e)" by (cases te)
  from Cons.prems te have ck: "millis_start e = of_nat T" and cl: "clocked tes"
    and so: "sorted (map fst tes)" and le: "T0 \<le> T" and later: "\<forall>U \<in> set (map fst tes). T \<le> U"
    by (auto simp add: clocked_def)
  from later le have later0: "\<forall>U \<in> set (map fst tes). T0 \<le> U" by auto
  show ?case
  proof (cases "fired st e")
    case True
    from fire[OF True] Cons.prems(3) ck
    have d: "d \<le> unat ((of_nat T :: ulong) - of_nat T0)" and m: "mark (fst (loop P st e)) = of_nat T"
      by simp_all
    from elapsed_on_clock[OF le d] have now: "T0 + d \<le> T" .
    from Cons.IH[OF cl so m later] now True te show ?thesis by auto
  next
    case False
    from rest[OF False] Cons.prems(3) have m: "mark (fst (loop P st e)) = of_nat T0" by simp
    from Cons.IH[OF cl so m later0] False te show ?thesis by auto
  qed
qed

lemma fire_times_apart:
  assumes fire: "\<And>st e. fired st e \<Longrightarrow>
                   d \<le> unat (millis_start e - mark st) \<and> mark (fst (loop P st e)) = millis_start e"
    and rest: "\<And>st e. \<not> fired st e \<Longrightarrow> mark (fst (loop P st e)) = mark st"
  shows "clocked tes \<Longrightarrow> sorted (map fst tes)
          \<Longrightarrow> sorted_wrt (\<lambda>a b. a + d \<le> b) (fire_times fired P st tes)"
proof (induction tes arbitrary: st)
  case Nil
  show ?case by simp
next
  case (Cons te tes)
  obtain T e where te: "te = (T, e)" by (cases te)
  from Cons.prems te have ck: "millis_start e = of_nat T" and cl: "clocked tes"
    and so: "sorted (map fst tes)" and later: "\<forall>U \<in> set (map fst tes). T \<le> U"
    by (auto simp add: clocked_def)
  note IH = Cons.IH[OF cl so, of "fst (loop P st e)"]
  show ?case
  proof (cases "fired st e")
    case True
    from fire[OF True] ck have m: "mark (fst (loop P st e)) = of_nat T" by simp
    from fire_times_after[of fired d mark P, OF fire rest cl so m later] IH True te
    show ?thesis by auto
  next
    case False
    with IH te show ?thesis by simp
  qed
qed

lemma fire_marks_first:
  assumes fire: "\<And>st e. fired st e \<Longrightarrow>
                   d \<le> millis_start e - mark st \<and> mark (fst (loop P st e)) = millis_start e"
    and rest: "\<And>st e. \<not> fired st e \<Longrightarrow> mark (fst (loop P st e)) = mark st"
  shows "fire_marks fired mark P st es = x # xs \<Longrightarrow> d \<le> x - mark st"
proof (induction es arbitrary: st)
  case Nil
  then show ?case by simp
next
  case (Cons e es)
  show ?case
  proof (cases "fired st e")
    case True
    with Cons.prems fire[OF True] show ?thesis by simp
  next
    case False
    with Cons.prems rest[OF False] Cons.IH[of "fst (loop P st e)"] show ?thesis by simp
  qed
qed

lemma fire_marks_successive:
  assumes fire: "\<And>st e. fired st e \<Longrightarrow>
                   d \<le> millis_start e - mark st \<and> mark (fst (loop P st e)) = millis_start e"
    and rest: "\<And>st e. \<not> fired st e \<Longrightarrow> mark (fst (loop P st e)) = mark st"
  shows "successively (\<lambda>a b. d \<le> b - a) (fire_marks fired mark P st es)"
proof (induction es arbitrary: st)
  case Nil
  show ?case by simp
next
  case (Cons e es)
  show ?case
  proof (cases "fired st e")
    case True
    show ?thesis
    proof (cases "fire_marks fired mark P (fst (loop P st e)) es")
      case Nil
      with True show ?thesis by simp
    next
      case (Cons x xs)
      from fire_marks_first[of fired d mark P, OF fire rest Cons] Cons.IH[of "fst (loop P st e)"] True Cons
      show ?thesis by (simp add: successively_Cons)
    qed
  next
    case False
    with Cons.IH show ?thesis by simp
  qed
qed

lemma update_fps_due:
  assumes "1000 \<le> t - lastFrameTime st"
  shows "fst (update_fps P st t) =
           st\<lparr>frameCount := 0,
              fps := float_round P (real (unat (frameCount st + 1)) * 1000
                                      / real (unat (t - lastFrameTime st))),
              lastFrameTime := t\<rparr>"
    and "prints (snd (update_fps P st t)) =
           [''FPS: '' @ String_float2 P (float_round P (real (unat (frameCount st + 1)) * 1000
                                      / real (unat (t - lastFrameTime st))))]"
    and "texts (snd (update_fps P st t)) =
           (if isConnected st
            then [log_json (''FPS: '' @ String_float2 P (float_round P
                    (real (unat (frameCount st + 1)) * 1000 / real (unat (t - lastFrameTime st)))))]
            else [])"
  using assms by (simp_all add: update_fps_def Let_def sendLog_def)

lemma update_fps_not_due:
  assumes "\<not> 1000 \<le> t - lastFrameTime st"
  shows "update_fps P st t = (st\<lparr>frameCount := frameCount st + 1\<rparr>, [])"
  using assms by (simp add: update_fps_def Let_def)

lemma update_fps_keeps:
  "lastHeartbeat (fst (update_fps P st t)) = lastHeartbeat st"
  "isConnected (fst (update_fps P st t)) = isConnected st"
  "connectionAttempts (fst (update_fps P st t)) = connectionAttempts st"
  by (simp_all add: update_fps_def Let_def)

lemma capture_keeps:
  "lastHeartbeat (fst (capture_and_send P st e t)) = lastHeartbeat st"
  "isConnected (fst (capture_and_send P st e t)) = isConnected st"
  "connectionAttempts (fst (capture_and_send P st e t)) = connectionAttempts st"
  by (cases "fb_get e"; simp add: capture_None capture_Some update_fps_keeps)+

lemma capture_types:
  "ty \<noteq> ''log'' \<Longrightarrow> ty \<noteq> ''frame'' \<Longrightarrow> texts_of_type ty (snd (capture_and_send P st e t)) = []"
  by (cases "fb_get e")
     (simp_all add: capture_None capture_Some update_fps_types send_frame_def pace_def Let_def
        texts_of_type_Cons)

lemma heartbeat_due:
  "texts_of_type ''heartbeat'' (snd (heartbeat st t)) =
     (if HEARTBEAT_INTERVAL \<le> t - lastHeartbeat st then [heartbeat_json t] else [])"
  "lastHeartbeat (fst (heartbeat st t)) =
     (if HEARTBEAT_INTERVAL \<le> t - lastHeartbeat st then t else lastHeartbeat st)"
  by (simp_all add: heartbeat_def texts_of_type_def)

lemma loop_heartbeat_texts:
  "texts_of_type ''heartbeat'' (snd (loop P st e)) =
     (if isConnected (fst (client_poll st e)) \<and> 30000 \<le> millis_start e - lastHeartbeat st
      then [heartbeat_json (millis_start e)] else [])"
proof (cases "isConnected (fst (client_poll st e))")
  case True
  then show ?thesis
    by (simp add: loop_connected snd_stream client_poll_types capture_types heartbeat_due
          client_poll_keeps HEARTBEAT_INTERVAL_def)
next
  case False
  then show ?thesis by (simp add: loop_types_disconnected)
qed

lemma loop_lastHeartbeat:
  "lastHeartbeat (fst (loop P st e)) =
     (if isConnected (fst (client_poll st e)) \<and> 30000 \<le> millis_start e - lastHeartbeat st
      then millis_start e else lastHeartbeat st)"
proof (cases "isConnected (fst (client_poll st e))")
  case True
  then show ?thesis
    by (simp add: loop_connected fst_stream capture_keeps heartbeat_due client_poll_keeps
          HEARTBEAT_INTERVAL_def)
next
  case False
  then show ?thesis by (simp add: loop_keeps_disconnected)
qed

lemma heartbeat_sent_iff:
  "heartbeat_sent P st e \<longleftrightarrow>
     isConnected (fst (client_poll st e)) \<and> 30000 \<le> millis_start e - lastHeartbeat st"
  by (simp add: heartbeat_sent_def loop_heartbeat_texts)

lemma heartbeat_gate:
  "heartbeat_sent P st e \<Longrightarrow>
     30000 \<le> millis_start e - lastHeartbeat st \<and> lastHeartbeat (fst (loop P st e)) = millis_start e"
  "\<not> heartbeat_sent P st e \<Longrightarrow> lastHeartbeat (fst (loop P st e)) = lastHeartbeat st"
  by (auto simp add: heartbeat_sent_iff loop_lastHeartbeat)

lemma heartbeat_gate_nat:
  "heartbeat_sent P st e \<Longrightarrow>
     30000 \<le> unat (millis_start e - lastHeartbeat st) \<and> lastHeartbeat (fst (loop P st e)) = millis_start e"
  using heartbeat_gate(1)[of P st e] by (simp add: word_le_nat_alt)

lemma fst_loop_idle:
  "isConnected st \<Longrightarrow>
     fst (loop P st (idle_env t)) =
       (if 30000 \<le> t - lastHeartbeat st then st\<lparr>connectionAttempts := 0, lastHeartbeat := t\<rparr>
        else st\<lparr>connectionAttempts := 0\<rparr>)"
  "isConnected st \<Longrightarrow> heartbeat_sent P st (idle_env t) \<longleftrightarrow> 30000 \<le> t - lastHeartbeat st"
  by (simp_all add: heartbeat_sent_iff)
     (simp_all add: loop_def client_poll_def idle_env_def down_env_def stream_def heartbeat_def
        capture_and_send_def HEARTBEAT_INTERVAL_def Let_def)

lemma prints_append [simp]: "prints (xs @ ys) = prints xs @ prints ys"
  by (induction xs rule: prints.induct) simp_all

lemma fps_reports_append [simp]: "fps_reports (xs @ ys) = fps_reports xs @ fps_reports ys"
  by (simp add: fps_reports_def)

lemma fps_reports_Nil [simp]: "fps_reports [] = []"
  by (simp add: fps_reports_def)

lemma sendLog_prints [simp]: "prints (sendLog st m) = [m]"
  by (simp add: sendLog_def)

lemma callback_reports: "fps_reports (snd (onEventsCallback st ev)) = []"
  by (simp add: onEventsCallback_def fps_reports_def)

lemma dispatch_reports: "fps_reports (snd (dispatch st evs)) = []"
  by (induction evs arbitrary: st) (simp_all add: snd_dispatch_Cons callback_reports del: dispatch.simps(2))

lemma client_poll_reports: "fps_reports (snd (client_poll st e)) = []"
  using dispatch_reports[of st "poll_events e"] by (simp add: snd_client_poll fps_reports_def)

lemma reconnect_reports: "fps_reports (snd (reconnect st e)) = []"
  by (simp add: reconnect_def connectWebSocket_def Let_def fps_reports_def AUTH_TOKEN_def)

lemma heartbeat_reports: "fps_reports (snd (heartbeat st t)) = []"
  by (simp add: heartbeat_def fps_reports_def)

lemma capture_reports:
  "fps_reports (snd (capture_and_send P st e t)) =
     (if fb_get e \<noteq> None \<and> 1000 \<le> t - lastFrameTime st
      then [''FPS: '' @ String_float2 P (float_round P (real (unat (frameCount st + 1)) * 1000
                                      / real (unat (t - lastFrameTime st))))]
      else [])"
proof (cases "fb_get e")
  case None
  then show ?thesis by (simp add: capture_None fps_reports_def)
next
  case (Some fb)
  have q: "prints (send_frame P st e fb) = []" "prints (pace t (millis_end e)) = []"
    by (simp_all add: send_frame_def pace_def Let_def)
  show ?thesis
    by (cases "1000 \<le> t - lastFrameTime st")
       (simp_all add: capture_Some[OF Some] fps_reports_def q update_fps_due update_fps_not_due Some)
qed

lemma capture_fps_state:
  "fb_get e \<noteq> None \<Longrightarrow> 1000 \<le> t - lastFrameTime st \<Longrightarrow>
     fps (fst (capture_and_send P st e t)) =
       float_round P (real (unat (frameCount st + 1)) * 1000 / real (unat (t - lastFrameTime st)))
     \<and> frameCount (fst (capture_and_send P st e t)) = 0
     \<and> lastFrameTime (fst (capture_and_send P st e t)) = t"
  "fb_get e \<noteq> None \<Longrightarrow> \<not> 1000 \<le> t - lastFrameTime st \<Longrightarrow>
     fps (fst (capture_and_send P st e t)) = fps st
     \<and> frameCount (fst (capture_and_send P st e t)) = frameCount st + 1
     \<and> lastFrameTime (fst (capture_and_send P st e t)) = lastFrameTime st"
  "fb_get e = None \<Longrightarrow> fst (capture_and_send P st e t) = st"
  by (auto simp add: capture_Some capture_None update_fps_due update_fps_not_due)

lemma fps_reported_iff:
  "fps_reported P st e \<longleftrightarrow>
     isConnected (fst (client_poll st e)) \<and> fb_get e \<noteq> None
       \<and> 1000 \<le> millis_start e - lastFrameTime st"
proof (cases "isConnected (fst (client_poll st e))")
  case True
  then show ?thesis
    by (simp add: fps_reported_def loop_connected snd_stream client_poll_reports heartbeat_reports
          capture_reports heartbeat_keeps client_poll_keeps)
next
  case False
  then show ?thesis
    by (simp add: fps_reported_def loop_disconnected client_poll_reports reconnect_reports)
qed

lemma fps_reported_effect:
  assumes "fps_reported P st e"
  shows "fps (fst (loop P st e)) =
           float_round P (real (unat (frameCount st + 1)) * 1000
                            / real (unat (millis_start e - lastFrameTime st)))"
    and "fps_reports (snd (loop P st e)) = [''FPS: '' @ String_float2 P (fps (fst (loop P st e)))]"
    and "frameCount (fst (loop P st e)) = 0"
    and "lastFrameTime (fst (loop P st e)) = millis_start e"
proof -
  from assms have c: "isConnected (fst (client_poll st e))" and f: "fb_get e \<noteq> None"
    and d: "1000 \<le> millis_start e - lastFrameTime st"
    by (simp_all add: fps_reported_iff)
  let ?s = "fst (heartbeat (fst (client_poll st e)\<lparr>connectionAttempts := 0\<rparr>) (millis_start e))"
  have k: "lastFrameTime ?s = lastFrameTime st" "frameCount ?s = frameCount st"
    by (simp_all add: heartbeat_keeps client_poll_keeps)
  from d k have d': "1000 \<le> millis_start e - lastFrameTime ?s" by simp
  from capture_fps_state(1)[OF f d', of P] k
  show v: "fps (fst (loop P st e)) =
           float_round P (real (unat (frameCount st + 1)) * 1000
                            / real (unat (millis_start e - lastFrameTime st)))"
    and "frameCount (fst (loop P st e)) = 0"
    and "lastFrameTime (fst (loop P st e)) = millis_start e"
    by (simp_all add: loop_connected[OF c] fst_stream)
  show "fps_reports (snd (loop P st e)) = [''FPS: '' @ String_float2 P (fps (fst (loop P st e)))]"
    unfolding v using f d' k
    by (simp add: loop_connected[OF c] snd_stream client_poll_reports heartbeat_reports
          capture_reports)
qed

lemma fps_not_reported_effect:
  assumes "\<not> fps_reported P st e"
  shows "lastFrameTime (fst (loop P st e)) = lastFrameTime st"
    and "fps (fst (loop P st e)) = fps st"
    and "frameCount (fst (loop P st e)) =
           (if isConnected (fst (client_poll st e)) \<and> fb_get e \<noteq> None then frameCount st + 1
            else frameCount st)"
proof -
  let ?s = "fst (heartbeat (fst (client_poll st e)\<lparr>connectionAttempts := 0\<rparr>) (millis_start e))"
  have k: "lastFrameTime ?s = lastFrameTime st" "frameCount ?s = frameCount st" "fps ?s = fps st"
    by (simp_all add: heartbeat_keeps client_poll_keeps)
  show "lastFrameTime (fst (loop P st e)) = lastFrameTime st"
    and "fps (fst (loop P st e)) = fps st"
    and "frameCount (fst (loop P st e)) =
           (if isConnected (fst (client_poll st e)) \<and> fb_get e \<noteq> None then frameCount st + 1
            else frameCount st)"
  proof (atomize (full), cases "isConnected (fst (client_poll st e))")
    case True
    show "lastFrameTime (fst (loop P st e)) = lastFrameTime st
        \<and> fps (fst (loop P st e)) = fps st
        \<and> frameCount (fst (loop P st e)) =
           (if isConnected (fst (client_poll st e)) \<and> fb_get e \<noteq> None then frameCount st + 1
            else frameCount st)"
    proof (cases "fb_get e")
      case None
      with True k show ?thesis
        by (simp add: loop_connected fst_stream capture_fps_state(3))
    next
      case (Some fb)
      with assms True have "\<not> 1000 \<le> millis_start e - lastFrameTime ?s"
        by (simp add: fps_reported_iff k)
      from capture_fps_state(2)[OF _ this, of e P] Some True k show ?thesis
        by (simp add: loop_connected fst_stream)
    qed
  next
    case False
    then show "lastFrameTime (fst (loop P st e)) = lastFrameTime st
        \<and> fps (fst (loop P st e)) = fps st
        \<and> frameCount (fst (loop P st e)) =
           (if isConnected (fst (client_poll st e)) \<and> fb_get e \<noteq> None then frameCount st + 1
            else frameCount st)"
      by (simp add: loop_keeps_disconnected)
  qed
qed

lemma fps_gate:
  "fps_reported P st e \<Longrightarrow>
     1000 \<le> millis_start e - lastFrameTime st \<and> lastFrameTime (fst (loop P st e)) = millis_start e"
  "\<not> fps_reported P st e \<Longrightarrow> lastFrameTime (fst (loop P st e)) = lastFrameTime st"
  using fps_reported_effect(4)[of P st e] fps_not_reported_effect(1)[of P st e]
  by (simp_all add: fps_reported_iff)

lemma fps_gate_nat:
  "fps_reported P st e \<Longrightarrow>
     1000 \<le> unat (millis_start e - lastFrameTime st) \<and> lastFrameTime (fst (loop P st e)) = millis_start e"
  using fps_gate(1)[of P st e] by (simp add: word_le_nat_alt)

lemma fst_loop_frame_at:
  "isConnected st \<Longrightarrow> fps_reported P st (frame_at t) \<longleftrightarrow> 1000 \<le> t - lastFrameTime st"
  "isConnected st \<Longrightarrow> \<not> 30000 \<le> t - lastHeartbeat st \<Longrightarrow>
     fst (loop P st (frame_at t)) =
       (if 1000 \<le> t - lastFrameTime st
        then st\<lparr>connectionAttempts := 0, frameCount := 0,
                fps := float_round P (real (unat (frameCount st + 1)) * 1000
                                        / real (unat (t - lastFrameTime st))),
                lastFrameTime := t\<rparr>
        else st\<lparr>connectionAttempts := 0, frameCount := frameCount st + 1\<rparr>)"
  by (simp_all add: fps_reported_iff)
     (simp_all add: loop_def client_poll_def frame_at_def frame_env_def stream_def heartbeat_def
        capture_and_send_def update_fps_def HEARTBEAT_INTERVAL_def Let_def)

lemma closed_event_logged_first:
  "snd (onEventsCallback st (ConnectionClosed, d)) = sendLog st ''Connection closed''"
  "isConnected (fst (onEventsCallback st (ConnectionClosed, d))) = False"
  by (simp_all add: onEventsCallback_def)

section \<open>Reconnect supervisor\<close>

text \<open>
  C1. With at most five attempts, a pass of the loop that finds the session disconnected
  after polling and the attempt counter below five tries to connect once, raises the
  counter by exactly one and then waits 5000 ms. A disconnected pass that finds the
  counter at five (not below five) tries no connect, sets the counter to zero and waits
  30000 ms, which is longer than 5000 ms. Hence, in a run of consecutive failures starting
  with the counter at zero, the counter after \<open>n\<close> passes is \<open>n mod 6\<close>, passes number
  \<open>6k + 5\<close> (counted from zero) are exactly those that wait the long backoff, and all
  others wait the short one: the fifth failure brings the counter to five, and the pass
  that follows it resets the counter and waits 30000 ms.
\<close>

theorem reconnect_backoff_policy:
  "(\<not> isConnected (fst (client_poll sa ea)) \<and> connectionAttempts sa < 5 \<longrightarrow>
      connects (snd (loop P sa ea)) = 1
      \<and> connectionAttempts (fst (loop P sa ea)) = connectionAttempts sa + 1
      \<and> unat (connectionAttempts (fst (loop P sa ea))) = unat (connectionAttempts sa) + 1
      \<and> delays (snd (loop P sa ea)) = [5000])
   \<and> (\<not> isConnected (fst (client_poll sb eb)) \<and> \<not> connectionAttempts sb < 5 \<longrightarrow>
      connects (snd (loop P sb eb)) = 0
      \<and> connectionAttempts (fst (loop P sb eb)) = 0
      \<and> delays (snd (loop P sb eb)) = [30000])
   \<and> (5000 :: ulong) < 30000
   \<and> (failing_run P st es \<and> connectionAttempts st = 0 \<longrightarrow>
      connectionAttempts (fst (run P st es)) = of_nat (length es mod 6)
      \<and> delays (snd (run P st es))
          = map (\<lambda>i. if i mod 6 = 5 then 30000 else 5000) [0..<length es]
      \<and> connects (snd (run P st es))
          = sum_list (map (\<lambda>i. if i mod 6 = 5 then 0 else 1) [0..<length es]))"
proof (intro conjI impI)
  assume h: "\<not> isConnected (fst (client_poll sa ea)) \<and> connectionAttempts sa < 5"
  then have lt: "connectionAttempts (fst (client_poll sa ea)) < MAX_CONNECTION_ATTEMPTS"
    by (simp add: client_poll_keeps MAX_CONNECTION_ATTEMPTS_def)
  from h show "connects (snd (loop P sa ea)) = 1"
    using reconnect_short(4)[OF lt] by (simp add: loop_disconnected client_poll_quiet)
  from h show inc: "connectionAttempts (fst (loop P sa ea)) = connectionAttempts sa + 1"
    using reconnect_short(1)[OF lt] by (simp add: loop_disconnected client_poll_keeps)
  from h have "unat (connectionAttempts sa) < 5"
    by (simp add: word_less_nat_alt)
  then show "unat (connectionAttempts (fst (loop P sa ea))) = unat (connectionAttempts sa) + 1"
    unfolding inc by (simp add: unat_word_ariths)
  from h show "delays (snd (loop P sa ea)) = [5000]"
    using reconnect_short(3)[OF lt] by (simp add: loop_disconnected client_poll_quiet)
next
  assume h: "\<not> isConnected (fst (client_poll sb eb)) \<and> \<not> connectionAttempts sb < 5"
  then have ge: "\<not> connectionAttempts (fst (client_poll sb eb)) < MAX_CONNECTION_ATTEMPTS"
    by (simp add: client_poll_keeps MAX_CONNECTION_ATTEMPTS_def)
  from h show "connects (snd (loop P sb eb)) = 0"
    using reconnect_long(4)[OF ge] by (simp add: loop_disconnected client_poll_quiet)
  from h show "connectionAttempts (fst (loop P sb eb)) = 0"
    using reconnect_long(1)[OF ge] by (simp add: loop_disconnected)
  from h show "delays (snd (loop P sb eb)) = [30000]"
    using reconnect_long(3)[OF ge] by (simp add: loop_disconnected client_poll_quiet)
next
  show "(5000 :: ulong) < 30000" by simp
next
  assume h: "failing_run P st es \<and> connectionAttempts st = 0"
  then have "connectionAttempts st = of_nat 0" by simp
  from failing_run_schedule[OF conjunct1[OF h] this]
  show "connectionAttempts (fst (run P st es)) = of_nat (length es mod 6)"
    and "delays (snd (run P st es))
          = map (\<lambda>i. if i mod 6 = 5 then 30000 else 5000) [0..<length es]"
    and "connects (snd (run P st es))
          = sum_list (map (\<lambda>i. if i mod 6 = 5 then 0 else 1) [0..<length es])"
    by simp_all
qed

theorem reconnect_backoff_policy_witness:
  "\<not> isConnected (fst (client_poll initial_globals down_env))
   \<and> connectionAttempts initial_globals < 5
   \<and> connects (snd (loop exact_platform initial_globals down_env)) = 1
   \<and> connectionAttempts (fst (loop exact_platform initial_globals down_env)) = 1
   \<and> delays (snd (loop exact_platform initial_globals down_env)) = [5000]
   \<and> \<not> isConnected (fst (client_poll (initial_globals\<lparr>connectionAttempts := 5\<rparr>) down_env))
   \<and> \<not> connectionAttempts (initial_globals\<lparr>connectionAttempts := 5\<rparr>) < 5
   \<and> connects (snd (loop exact_platform (initial_globals\<lparr>connectionAttempts := 5\<rparr>) down_env)) = 0
   \<and> connectionAttempts (fst (loop exact_platform (initial_globals\<lparr>connectionAttempts := 5\<rparr>) down_env)) = 0
   \<and> delays (snd (loop exact_platform (initial_globals\<lparr>connectionAttempts := 5\<rparr>) down_env)) = [30000]
   \<and> failing_run exact_platform initial_globals (replicate 6 down_env)
   \<and> connectionAttempts initial_globals = 0
   \<and> connectionAttempts (fst (run exact_platform initial_globals (replicate 6 down_env))) = 0
   \<and> delays (snd (run exact_platform initial_globals (replicate 6 down_env)))
       = [5000, 5000, 5000, 5000, 5000, 30000]
   \<and> connects (snd (run exact_platform initial_globals (replicate 6 down_env))) = 5"
proof -
  have init: "initial_globals = initial_globals\<lparr>connectionAttempts := 0\<rparr>"
    by (simp add: initial_globals_def)
  have a: "\<not> isConnected (fst (client_poll initial_globals down_env))
           \<and> connectionAttempts initial_globals < 5"
    by (simp add: client_poll_def down_env_def initial_globals_def)
  have b: "\<not> isConnected (fst (client_poll (initial_globals\<lparr>connectionAttempts := 5\<rparr>) down_env))
           \<and> \<not> connectionAttempts (initial_globals\<lparr>connectionAttempts := 5\<rparr>) < 5"
    by (simp add: client_poll_def down_env_def initial_globals_def)
  have c: "failing_run exact_platform initial_globals (replicate 6 down_env)
           \<and> connectionAttempts initial_globals = 0"
    using failing_run_down_env[of exact_platform 0 6] by (simp add: initial_globals_def)
  from a b c
    reconnect_backoff_policy[of initial_globals down_env exact_platform
      "initial_globals\<lparr>connectionAttempts := 5\<rparr>" down_env initial_globals "replicate 6 down_env"]
  show ?thesis
    by (simp add: upt_conv_Cons)
qed

text \<open>
  C2. The specification has every successful connect clear the attempt counter before any
  further connect is tried, and the sketch announces the same in its comment on line 204.
  The sketch clears the counter only in a pass that finds the session connected after
  polling (line 205), as lemma \<open>connected_pass_resets\<close> shows; the pass in which
  \<^verbatim>\<open>connectWebSocket\<close> succeeds still increments it (line 194). Evaluated with the
  counter at 3: the connect succeeds and leaves the counter at 4; the next poll reports
  the connection closed, so the reset is skipped and the next connect is announced as
  attempt 5 of 5; the pass after that one is the long backoff.
\<close>

theorem successful_connect_keeps_counter:
  "fst (loop exact_platform (initial_globals\<lparr>connectionAttempts := 3\<rparr>) accept_env)
     = initial_globals\<lparr>isConnected := True, connectionAttempts := 4\<rparr>
   \<and> fst (client_poll (initial_globals\<lparr>isConnected := True, connectionAttempts := 4\<rparr>) drop_env)
     = initial_globals\<lparr>isConnected := False, connectionAttempts := 4\<rparr>
   \<and> connects (snd (loop exact_platform
                        (initial_globals\<lparr>isConnected := True, connectionAttempts := 4\<rparr>) drop_env)) = 1
   \<and> hd (snd (reconnect (initial_globals\<lparr>isConnected := False, connectionAttempts := 4\<rparr>) drop_env))
     = SerialPrintln ''Attempting to reconnect... (Attempt 5/5)''
   \<and> connectionAttempts (fst (loop exact_platform
                        (initial_globals\<lparr>isConnected := True, connectionAttempts := 4\<rparr>) drop_env)) = 5
   \<and> delays (snd (run exact_platform (initial_globals\<lparr>connectionAttempts := 3\<rparr>)
                     [accept_env, drop_env, down_env])) = [5000, 5000, 30000]"
  by (simp add: loop_def client_poll_def reconnect_def connectWebSocket_def onEventsCallback_def
        sendLog_def accept_env_def drop_env_def down_env_def initial_globals_def
        MAX_CONNECTION_ATTEMPTS_def Let_def String_ulong_def decimal.simps digit_char_def)

section \<open>Streaming loop\<close>

text \<open>
  C8. A pass that finds the session disconnected after polling consists of the poll
  followed by the reconnect logic and nothing else: it does not call the camera, sends no
  binary frame, no frame metadata and no heartbeat, and leaves the heartbeat timestamp and
  the frame counters as they were. The same holds for every run made of such passes, so
  no frame is sent during backoff.
\<close>

theorem disconnected_pass_only_reconnects:
  "(\<not> isConnected (fst (client_poll st e)) \<longrightarrow>
      loop P st e = (fst (reconnect (fst (client_poll st e)) e),
                     snd (client_poll st e) @ snd (reconnect (fst (client_poll st e)) e))
      \<and> captures (snd (loop P st e)) = 0
      \<and> binaries (snd (loop P st e)) = []
      \<and> texts_of_type ''frame'' (snd (loop P st e)) = []
      \<and> texts_of_type ''heartbeat'' (snd (loop P st e)) = []
      \<and> lastHeartbeat (fst (loop P st e)) = lastHeartbeat st
      \<and> frameCount (fst (loop P st e)) = frameCount st
      \<and> lastFrameTime (fst (loop P st e)) = lastFrameTime st)
   \<and> (offline_run P sr es \<longrightarrow>
      captures (snd (run P sr es)) = 0
      \<and> binaries (snd (run P sr es)) = []
      \<and> texts_of_type ''frame'' (snd (run P sr es)) = []
      \<and> texts_of_type ''heartbeat'' (snd (run P sr es)) = [])"
proof (intro conjI impI)
  assume d: "\<not> isConnected (fst (client_poll st e))"
  show "loop P st e = (fst (reconnect (fst (client_poll st e)) e),
                       snd (client_poll st e) @ snd (reconnect (fst (client_poll st e)) e))"
    by (rule loop_disconnected[OF d])
  show "captures (snd (loop P st e)) = 0" "binaries (snd (loop P st e)) = []"
    by (rule loop_quiet_disconnected[OF d])+
  show "texts_of_type ''frame'' (snd (loop P st e)) = []"
    "texts_of_type ''heartbeat'' (snd (loop P st e)) = []"
    by (simp_all add: loop_types_disconnected[OF d])
  show "lastHeartbeat (fst (loop P st e)) = lastHeartbeat st"
    "frameCount (fst (loop P st e)) = frameCount st"
    "lastFrameTime (fst (loop P st e)) = lastFrameTime st"
    by (rule loop_keeps_disconnected[OF d])+
next
  assume "offline_run P sr es"
  from offline_run_silent[OF this]
  show "captures (snd (run P sr es)) = 0" "binaries (snd (run P sr es)) = []"
    "texts_of_type ''frame'' (snd (run P sr es)) = []"
    "texts_of_type ''heartbeat'' (snd (run P sr es)) = []"
    by simp_all
qed

theorem disconnected_pass_only_reconnects_witness:
  "\<not> isConnected (fst (client_poll (initial_globals\<lparr>isConnected := True\<rparr>) drop_env))
   \<and> captures (snd (loop exact_platform (initial_globals\<lparr>isConnected := True\<rparr>) drop_env)) = 0
   \<and> binaries (snd (loop exact_platform (initial_globals\<lparr>isConnected := True\<rparr>) drop_env)) = []
   \<and> texts_of_type ''frame'' (snd (loop exact_platform (initial_globals\<lparr>isConnected := True\<rparr>) drop_env)) = []
   \<and> texts_of_type ''heartbeat'' (snd (loop exact_platform (initial_globals\<lparr>isConnected := True\<rparr>) drop_env)) = []
   \<and> offline_run exact_platform initial_globals [down_env, down_env]
   \<and> captures (snd (run exact_platform initial_globals [down_env, down_env])) = 0
   \<and> binaries (snd (run exact_platform initial_globals [down_env, down_env])) = []"
proof -
  have a: "\<not> isConnected (fst (client_poll (initial_globals\<lparr>isConnected := True\<rparr>) drop_env))"
    by (simp add: client_poll_def drop_env_def down_env_def onEventsCallback_def)
  have "offline_run exact_platform (initial_globals\<lparr>connectionAttempts := 0\<rparr>) [down_env, down_env]"
    by (simp add: loop_down_env MAX_CONNECTION_ATTEMPTS_def) (simp add: initial_globals_def)
  then have b: "offline_run exact_platform initial_globals [down_env, down_env]"
    by (simp add: initial_globals_def)
  note T = disconnected_pass_only_reconnects[of "initial_globals\<lparr>isConnected := True\<rparr>" drop_env
      exact_platform initial_globals "[down_env, down_env]"]
  from mp[OF conjunct1[OF T] a] mp[OF conjunct2[OF T] b] a b
  show ?thesis by blast
qed

text \<open>
  C6. With the interval of 30000 ms, a pass sends a heartbeat exactly when it is connected
  after polling and at least 30000 ms (in unsigned 32-bit arithmetic) lie between the
  recorded heartbeat timestamp and the clock reading of the pass; it then sends one
  heartbeat text carrying that reading and records it, and otherwise leaves the recorded
  timestamp alone. Hence in every run each recorded timestamp lies at least 30000 ms after
  the one recorded before it, and in a run against a clock that does not go backwards any
  two heartbeats are at least 30000 ms apart, also across the wrap-around of \<^verbatim>\<open>millis()\<close>.
\<close>

theorem heartbeat_once_per_interval:
  "(heartbeat_sent P st e \<longleftrightarrow>
      isConnected (fst (client_poll st e)) \<and> 30000 \<le> millis_start e - lastHeartbeat st)
   \<and> texts_of_type ''heartbeat'' (snd (loop P st e)) =
       (if heartbeat_sent P st e then [heartbeat_json (millis_start e)] else [])
   \<and> lastHeartbeat (fst (loop P st e)) =
       (if heartbeat_sent P st e then millis_start e else lastHeartbeat st)
   \<and> successively (\<lambda>a b. 30000 \<le> b - a) (fire_marks (heartbeat_sent P) lastHeartbeat P sr es)
   \<and> (clocked tes \<and> sorted (map fst tes) \<longrightarrow>
        sorted_wrt (\<lambda>a b. a + 30000 \<le> b) (fire_times (heartbeat_sent P) P sr tes))"
proof (intro conjI impI)
  show "heartbeat_sent P st e \<longleftrightarrow>
      isConnected (fst (client_poll st e)) \<and> 30000 \<le> millis_start e - lastHeartbeat st"
    by (rule heartbeat_sent_iff)
  show "texts_of_type ''heartbeat'' (snd (loop P st e)) =
       (if heartbeat_sent P st e then [heartbeat_json (millis_start e)] else [])"
    by (simp add: heartbeat_sent_iff loop_heartbeat_texts)
  show "lastHeartbeat (fst (loop P st e)) =
       (if heartbeat_sent P st e then millis_start e else lastHeartbeat st)"
    by (simp add: heartbeat_sent_iff loop_lastHeartbeat)
  show "successively (\<lambda>a b. 30000 \<le> b - a) (fire_marks (heartbeat_sent P) lastHeartbeat P sr es)"
    by (rule fire_marks_successive[of "heartbeat_sent P" 30000 lastHeartbeat P])
       (simp_all add: heartbeat_gate)
next
  assume "clocked tes \<and> sorted (map fst tes)"
  then have c: "clocked tes" and s: "sorted (map fst tes)" by simp_all
  show "sorted_wrt (\<lambda>a b. a + 30000 \<le> b) (fire_times (heartbeat_sent P) P sr tes)"
    by (rule fire_times_apart[of "heartbeat_sent P" 30000 lastHeartbeat P, OF _ _ c s])
       (simp_all add: heartbeat_gate_nat heartbeat_gate(2))
qed

theorem heartbeat_once_per_interval_witness:
  "clocked [(30000::nat, idle_env 30000), (45000, idle_env 45000), (60010, idle_env 60010)]
   \<and> sorted (map fst [(30000::nat, idle_env 30000), (45000, idle_env 45000), (60010, idle_env 60010)])
   \<and> fire_times (heartbeat_sent exact_platform) exact_platform (initial_globals\<lparr>isConnected := True\<rparr>)
        [(30000::nat, idle_env 30000), (45000, idle_env 45000), (60010, idle_env 60010)] = [30000, 60010]
   \<and> sorted_wrt (\<lambda>a b. a + 30000 \<le> b)
        (fire_times (heartbeat_sent exact_platform) exact_platform (initial_globals\<lparr>isConnected := True\<rparr>)
           [(30000::nat, idle_env 30000), (45000, idle_env 45000), (60010, idle_env 60010)])"
proof -
  have a: "clocked [(30000::nat, idle_env 30000), (45000, idle_env 45000), (60010, idle_env 60010)]
           \<and> sorted (map fst [(30000::nat, idle_env 30000), (45000, idle_env 45000), (60010, idle_env 60010)])"
    by (simp add: clocked_def idle_env_def)
  have b: "fire_times (heartbeat_sent exact_platform) exact_platform (initial_globals\<lparr>isConnected := True\<rparr>)
        [(30000::nat, idle_env 30000), (45000, idle_env 45000), (60010, idle_env 60010)] = [30000, 60010]"
    by (simp add: fst_loop_idle initial_globals_def)
  note T = heartbeat_once_per_interval[where P = exact_platform
      and tes = "[(30000::nat, idle_env 30000), (45000, idle_env 45000), (60010, idle_env 60010)]"
      and sr = "initial_globals\<lparr>isConnected := True\<rparr>"]
  from T a have "sorted_wrt (\<lambda>a b. a + 30000 \<le> b)
        (fire_times (heartbeat_sent exact_platform) exact_platform (initial_globals\<lparr>isConnected := True\<rparr>)
           [(30000::nat, idle_env 30000), (45000, idle_env 45000), (60010, idle_env 60010)])"
    by blast
  with a b show ?thesis by blast
qed

text \<open>
  C4. Whatever a pass does, the frames it returns to the driver are exactly the frames it
  obtained, at most one, and along its trace the buffer is owned correctly: a frame is
  returned only while it is the one held, none is obtained while one is held, and none is
  held when the pass ends. This holds for the part of the pass from the capture to its
  end in every state, connected or not (the sends are then skipped), whatever the sends
  return (the sketch discards their results), and when the capture fails (nothing is
  obtained and nothing returned). It therefore holds for every run of passes.
\<close>

theorem frame_released_exactly_once:
  "released (snd (loop P st e)) = acquired (snd (loop P st e))
   \<and> length (acquired (snd (loop P st e))) \<le> 1
   \<and> frame_owner None (snd (loop P st e)) = Some None
   \<and> acquired (snd (capture_and_send P sc e t)) = (case fb_get e of None \<Rightarrow> [] | Some fb \<Rightarrow> [fb])
   \<and> released (snd (capture_and_send P sc e t)) = (case fb_get e of None \<Rightarrow> [] | Some fb \<Rightarrow> [fb])
   \<and> frame_owner None (snd (capture_and_send P sc e t)) = Some None
   \<and> released (snd (run P st es)) = acquired (snd (run P st es))
   \<and> frame_owner None (snd (run P st es)) = Some None"
  by (simp add: loop_frames(2) frame_owner_loop capture_frames frame_owner_capture run_frames
        frame_owner_run)
     (simp add: loop_frames(1) split: option.split)

text \<open>
  C5. In a pass that is connected after polling and obtains a frame, the trace contains the
  frame metadata text and, immediately after it, the binary send of the frame's buffer
  with the frame's length; no other binary send and no other frame metadata occur in the
  pass. Read back, the metadata text reports the frame's length as \<^verbatim>\<open>size\<close> and its
  dimensions as \<^verbatim>\<open>width\<close> and \<^verbatim>\<open>height\<close>. More generally the trace of every pass and of
  every run is well framed: each binary send directly follows a frame metadata text whose
  \<^verbatim>\<open>size\<close> is the number of bytes sent, and each frame metadata text is directly followed
  by such a binary send.
\<close>

theorem metadata_precedes_binary:
  "(isConnected (fst (client_poll st e)) \<and> fb_get e = Some fb \<longrightarrow>
      (\<exists>pre post.
         snd (loop P st e) =
           pre @ [WsSend (metadata_json P fb (millis_meta e) (fps st)),
                  WsSendBinary (buf fb) (len fb)] @ post
         \<and> binaries pre = [] \<and> binaries post = []
         \<and> texts_of_type ''frame'' pre = [] \<and> texts_of_type ''frame'' post = []))
   \<and> json_type (metadata_json P fm t f) = ''frame''
   \<and> json_nat ''size'' (metadata_json P fm t f) = Some (unat (len fm))
   \<and> json_nat ''width'' (metadata_json P fm t f) = Some (unat (width fm))
   \<and> json_nat ''height'' (metadata_json P fm t f) = Some (unat (height fm))
   \<and> framing None (snd (loop P sr er))
   \<and> framing None (snd (run P sr es))"
proof (intro conjI impI)
  assume h: "isConnected (fst (client_poll st e)) \<and> fb_get e = Some fb"
  let ?pre = "snd (client_poll st e)
              @ snd (heartbeat (fst (client_poll st e)\<lparr>connectionAttempts := 0\<rparr>) (millis_start e))
              @ [FbGet (Some fb)]"
  let ?post = "[FbReturn fb]
              @ snd (update_fps P (fst (heartbeat (fst (client_poll st e)\<lparr>connectionAttempts := 0\<rparr>)
                                         (millis_start e))) (millis_start e))
              @ pace (millis_start e) (millis_end e)"
  have "snd (loop P st e) =
          ?pre @ [WsSend (metadata_json P fb (millis_meta e) (fps st)),
                  WsSendBinary (buf fb) (len fb)] @ ?post"
    using loop_frame_trace[of st e fb P] h by simp
  moreover have "binaries ?pre = []" "binaries ?post = []"
    by (simp_all add: client_poll_quiet heartbeat_quiet update_fps_quiet pace_def Let_def)
  moreover have "texts_of_type ''frame'' ?pre = []" "texts_of_type ''frame'' ?post = []"
    by (simp_all add: client_poll_types heartbeat_types update_fps_types pace_def Let_def
          texts_of_type_Cons)
  ultimately show "\<exists>pre post.
         snd (loop P st e) =
           pre @ [WsSend (metadata_json P fb (millis_meta e) (fps st)),
                  WsSendBinary (buf fb) (len fb)] @ post
         \<and> binaries pre = [] \<and> binaries post = []
         \<and> texts_of_type ''frame'' pre = [] \<and> texts_of_type ''frame'' post = []"
    by blast
qed (simp_all add: metadata_reports framing_loop framing_run)

theorem metadata_precedes_binary_witness:
  "isConnected (fst (client_poll (initial_globals\<lparr>isConnected := True\<rparr>) frame_env))
   \<and> fb_get frame_env = Some small_frame
   \<and> (\<exists>pre post.
         snd (loop exact_platform (initial_globals\<lparr>isConnected := True\<rparr>) frame_env) =
           pre @ [WsSend (metadata_json exact_platform small_frame 1002 0),
                  WsSendBinary [255, 216, 255, 217] 4] @ post
         \<and> binaries pre = [] \<and> binaries post = []
         \<and> texts_of_type ''frame'' pre = [] \<and> texts_of_type ''frame'' post = [])
   \<and> json_nat ''size'' (metadata_json exact_platform small_frame 1002 0) = Some 4
   \<and> json_nat ''width'' (metadata_json exact_platform small_frame 1002 0) = Some 320
   \<and> json_nat ''height'' (metadata_json exact_platform small_frame 1002 0) = Some 240"
proof -
  have a: "isConnected (fst (client_poll (initial_globals\<lparr>isConnected := True\<rparr>) frame_env))
           \<and> fb_get frame_env = Some small_frame"
    by (simp add: client_poll_def frame_env_def)
  note T = metadata_precedes_binary[of "initial_globals\<lparr>isConnected := True\<rparr>" frame_env
      small_frame exact_platform small_frame 1002 0]
  have v: "millis_meta frame_env = 1002" "fps (initial_globals\<lparr>isConnected := True\<rparr>) = 0"
    "buf small_frame = [255, 216, 255, 217]" "len small_frame = 4"
    by (simp_all add: frame_env_def initial_globals_def small_frame_def)
  have j: "json_nat ''size'' (metadata_json exact_platform small_frame 1002 0) = Some 4
           \<and> json_nat ''width'' (metadata_json exact_platform small_frame 1002 0) = Some 320
           \<and> json_nat ''height'' (metadata_json exact_platform small_frame 1002 0) = Some 240"
    using conjunct2[OF T] by (simp add: small_frame_def)
  from mp[OF conjunct1[OF T] a] j a
  show ?thesis unfolding v by blast
qed

text \<open>
  C7. A pass reports the frame rate exactly when it is connected after polling, obtains a
  frame, and at least 1000 ms (in unsigned 32-bit arithmetic) lie between the start of the
  window and the clock reading of the pass. The value stored and reported is the count of
  frames of the window, this frame included, times 1000, divided by the elapsed
  milliseconds, as rounded by the floating-point unit (\<open>float_round\<close>); the report is the
  line \<^verbatim>\<open>FPS: \<close> followed by that value with two decimals. After a report the frame count
  is zero and the window starts at the clock reading of the pass; a pass without a report
  leaves the window start and the stored value alone. Hence in every run each window
  start lies at least 1000 ms after the one before it, and against a clock that does not
  go backwards any two reports are at least 1000 ms apart.
\<close>

theorem fps_report_once_per_window:
  "(fps_reported P st e \<longleftrightarrow>
      isConnected (fst (client_poll st e)) \<and> fb_get e \<noteq> None
        \<and> 1000 \<le> millis_start e - lastFrameTime st)
   \<and> (fps_reported P sa ea \<longrightarrow>
        1000 \<le> unat (millis_start ea - lastFrameTime sa)
        \<and> fps (fst (loop P sa ea)) =
            float_round P (real (unat (frameCount sa + 1)) * 1000
                             / real (unat (millis_start ea - lastFrameTime sa)))
        \<and> fps_reports (snd (loop P sa ea)) = [''FPS: '' @ String_float2 P (fps (fst (loop P sa ea)))]
        \<and> frameCount (fst (loop P sa ea)) = 0
        \<and> lastFrameTime (fst (loop P sa ea)) = millis_start ea)
   \<and> (\<not> fps_reported P sb eb \<longrightarrow>
        fps_reports (snd (loop P sb eb)) = []
        \<and> lastFrameTime (fst (loop P sb eb)) = lastFrameTime sb
        \<and> fps (fst (loop P sb eb)) = fps sb)
   \<and> successively (\<lambda>a b. 1000 \<le> b - a) (fire_marks (fps_reported P) lastFrameTime P sr es)
   \<and> (clocked tes \<and> sorted (map fst tes) \<longrightarrow>
        sorted_wrt (\<lambda>a b. a + 1000 \<le> b) (fire_times (fps_reported P) P sr tes))"
proof (intro conjI impI)
  show "fps_reported P st e \<longleftrightarrow>
      isConnected (fst (client_poll st e)) \<and> fb_get e \<noteq> None
        \<and> 1000 \<le> millis_start e - lastFrameTime st"
    by (rule fps_reported_iff)
next
  assume r: "fps_reported P sa ea"
  from fps_gate_nat[OF r] show "1000 \<le> unat (millis_start ea - lastFrameTime sa)" by simp
  show "fps (fst (loop P sa ea)) =
            float_round P (real (unat (frameCount sa + 1)) * 1000
                             / real (unat (millis_start ea - lastFrameTime sa)))"
    by (rule fps_reported_effect(1)[OF r])
  show "fps_reports (snd (loop P sa ea)) = [''FPS: '' @ String_float2 P (fps (fst (loop P sa ea)))]"
    by (rule fps_reported_effect(2)[OF r])
  show "frameCount (fst (loop P sa ea)) = 0" by (rule fps_reported_effect(3)[OF r])
  show "lastFrameTime (fst (loop P sa ea)) = millis_start ea" by (rule fps_reported_effect(4)[OF r])
next
  assume n: "\<not> fps_reported P sb eb"
  then show "fps_reports (snd (loop P sb eb)) = []" by (simp add: fps_reported_def)
  show "lastFrameTime (fst (loop P sb eb)) = lastFrameTime sb"
    by (rule fps_not_reported_effect(1)[OF n])
  show "fps (fst (loop P sb eb)) = fps sb" by (rule fps_not_reported_effect(2)[OF n])
next
  show "successively (\<lambda>a b. 1000 \<le> b - a) (fire_marks (fps_reported P) lastFrameTime P sr es)"
    by (rule fire_marks_successive[of "fps_reported P" 1000 lastFrameTime P])
       (simp_all add: fps_gate)
next
  assume "clocked tes \<and> sorted (map fst tes)"
  then have c: "clocked tes" and s: "sorted (map fst tes)" by simp_all
  show "sorted_wrt (\<lambda>a b. a + 1000 \<le> b) (fire_times (fps_reported P) P sr tes)"
    by (rule fire_times_apart[of "fps_reported P" 1000 lastFrameTime P, OF _ _ c s])
       (simp_all add: fps_gate_nat fps_gate(2))
qed

theorem fps_report_once_per_window_witness:
  "fps_reported exact_platform (initial_globals\<lparr>isConnected := True, frameCount := 29\<rparr>) (frame_at 1001)
   \<and> fps (fst (loop exact_platform (initial_globals\<lparr>isConnected := True, frameCount := 29\<rparr>) (frame_at 1001)))
       = 30000 / 1001
   \<and> fps_reports (snd (loop exact_platform (initial_globals\<lparr>isConnected := True, frameCount := 29\<rparr>)
                              (frame_at 1001))) = [''FPS: 29.97'']
   \<and> frameCount (fst (loop exact_platform (initial_globals\<lparr>isConnected := True, frameCount := 29\<rparr>)
                              (frame_at 1001))) = 0
   \<and> lastFrameTime (fst (loop exact_platform (initial_globals\<lparr>isConnected := True, frameCount := 29\<rparr>)
                              (frame_at 1001))) = 1001
   \<and> \<not> fps_reported exact_platform (initial_globals\<lparr>isConnected := True, frameCount := 29\<rparr>) (frame_at 999)
   \<and> fps_reports (snd (loop exact_platform (initial_globals\<lparr>isConnected := True, frameCount := 29\<rparr>)
                              (frame_at 999))) = []
   \<and> clocked [(1000::nat, frame_at 1000), (1500, frame_at 1500), (2000, frame_at 2000)]
   \<and> sorted (map fst [(1000::nat, frame_at 1000), (1500, frame_at 1500), (2000, frame_at 2000)])
   \<and> fire_times (fps_reported exact_platform) exact_platform (initial_globals\<lparr>isConnected := True\<rparr>)
        [(1000::nat, frame_at 1000), (1500, frame_at 1500), (2000, frame_at 2000)] = [1000, 2000]
   \<and> sorted_wrt (\<lambda>a b. a + 1000 \<le> b)
        (fire_times (fps_reported exact_platform) exact_platform (initial_globals\<lparr>isConnected := True\<rparr>)
           [(1000::nat, frame_at 1000), (1500, frame_at 1500), (2000, frame_at 2000)])"
proof -
  let ?s = "initial_globals\<lparr>isConnected := True, frameCount := 29\<rparr>"
  let ?tes = "[(1000::nat, frame_at 1000), (1500, frame_at 1500), (2000, frame_at 2000)]"
  have a: "fps_reported exact_platform ?s (frame_at 1001)"
    and b: "\<not> fps_reported exact_platform ?s (frame_at 999)"
    by (simp_all add: fst_loop_frame_at initial_globals_def)
  have c: "clocked ?tes \<and> sorted (map fst ?tes)"
    by (simp add: clocked_def frame_at_def)
  have d: "fire_times (fps_reported exact_platform) exact_platform (initial_globals\<lparr>isConnected := True\<rparr>)
             ?tes = [1000, 2000]"
    by (simp add: fst_loop_frame_at initial_globals_def)
  note T = fps_report_once_per_window[where P = exact_platform and sa = ?s and ea = "frame_at 1001"
      and sb = ?s and eb = "frame_at 999" and tes = ?tes
      and sr = "initial_globals\<lparr>isConnected := True\<rparr>"]
  have v: "millis_start (frame_at 1001) = 1001" "lastFrameTime ?s = 0" "frameCount ?s = 29"
    by (simp_all add: frame_at_def initial_globals_def)
  from T a have A: "fps (fst (loop exact_platform ?s (frame_at 1001))) = 30000 / 1001
      \<and> fps_reports (snd (loop exact_platform ?s (frame_at 1001)))
          = [''FPS: '' @ String_float2 exact_platform (fps (fst (loop exact_platform ?s (frame_at 1001))))]
      \<and> frameCount (fst (loop exact_platform ?s (frame_at 1001))) = 0
      \<and> lastFrameTime (fst (loop exact_platform ?s (frame_at 1001))) = 1001"
    unfolding v by (simp add: exact_platform_def)
  have s: "String_float2 exact_platform (30000 / 1001) = ''29.97''"
    by (simp add: exact_platform_def decimal.simps digit_char_def)
  from T b have B: "fps_reports (snd (loop exact_platform ?s (frame_at 999))) = []" by blast
  from T c have C: "sorted_wrt (\<lambda>a b. a + 1000 \<le> b)
        (fire_times (fps_reported exact_platform) exact_platform (initial_globals\<lparr>isConnected := True\<rparr>) ?tes)"
    by blast
  from A have f: "fps (fst (loop exact_platform ?s (frame_at 1001))) = 30000 / 1001" by blast
  from A have r: "fps_reports (snd (loop exact_platform ?s (frame_at 1001)))
          = [''FPS: '' @ String_float2 exact_platform (fps (fst (loop exact_platform ?s (frame_at 1001))))]"
    by blast
  have A': "fps_reports (snd (loop exact_platform ?s (frame_at 1001))) = [''FPS: 29.97'']"
    unfolding r f s by simp
  from a b c d A A' B C show ?thesis by blast
qed

text \<open>
  C3. The specification has a connected pass end by sleeping the rest of the 33 ms frame
  interval, \<open>max 0 (33 - e)\<close> for an elapsed time \<open>e\<close>, and the comments of the sketch
  announce that remaining delay. The sketch computes
  \<^verbatim>\<open>elapsed = millis() - (currentTime - frameDuration)\<close>, which is \<open>e + 33\<close>, so the test
  \<^verbatim>\<open>elapsed < frameDuration\<close> fails for every \<open>e\<close> below \<open>2^32 - 33\<close> (lemma \<open>pace_idle\<close>)
  and no delay is performed. Evaluated on a connected pass that captures a frame and
  takes 10 ms: a delay of 23 ms is due, the pass performs none.
\<close>

theorem pacing_never_waits:
  "millis_end frame_env - millis_start frame_env = 10
   \<and> pace (millis_start frame_env) (millis_end frame_env) = []
   \<and> isConnected (fst (client_poll (initial_globals\<lparr>isConnected := True\<rparr>) frame_env))
   \<and> captures (snd (loop exact_platform (initial_globals\<lparr>isConnected := True\<rparr>) frame_env)) = 1
   \<and> delays (snd (loop exact_platform (initial_globals\<lparr>isConnected := True\<rparr>) frame_env)) = []"
proof -
  have c: "isConnected (fst (client_poll (initial_globals\<lparr>isConnected := True\<rparr>) frame_env))"
    by (simp add: client_poll_def frame_env_def)
  have p: "pace (millis_start frame_env) (millis_end frame_env) = []"
    by (simp add: pace_def frame_env_def)
  have f: "fb_get frame_env = Some small_frame" by (simp add: frame_env_def)
  have d: "millis_end frame_env - millis_start frame_env = 10" by (simp add: frame_env_def)
  have n: "captures (snd (loop exact_platform (initial_globals\<lparr>isConnected := True\<rparr>) frame_env)) = 1"
    by (simp add: loop_connected[OF c] snd_stream capture_Some[OF f] client_poll_quiet
        heartbeat_quiet update_fps_quiet send_frame_quiet p)
  show ?thesis
    using c p d n by (simp add: delays_loop_connected[OF c] f)
qed

section \<open>Logging\<close>




section \<open>Session events of the connection test sketch\<close>

text \<open>
  C9. The event callback of the connection test sketch: a ConnectionOpened event sets the
  connected flag and clears the authenticated flag. A text message that contains
  \<^verbatim>\<open>connection_ack\<close>, received while the authenticated flag is clear, sets the authenticated
  flag and sends exactly one text, the device-info message; received while the flag is
  set, it changes nothing and sends nothing. A Ping event is answered by exactly one Pong
  and changes no flag. A ConnectionClosed event clears both flags.
\<close>

theorem session_event_transitions:
  \<open>(fst eo = ConnectionOpened \<longrightarrow>
      isConnected' (fst (onEventsCallback' st eo)) \<and> \<not> isAuthenticated (fst (onEventsCallback' st eo))
      \<and> texts (snd (onEventsCallback' st eo)) = [])
   \<and> (fst em = TextMessage \<and> sublist ''connection_ack'' (snd em) \<and> \<not> isAuthenticated sm \<longrightarrow>
      isAuthenticated (fst (onEventsCallback' sm em))
      \<and> isConnected' (fst (onEventsCallback' sm em)) = isConnected' sm
      \<and> texts (snd (onEventsCallback' sm em)) = [device_info_json]
      \<and> count_list (snd (onEventsCallback' sm em)) WsPong = 0)
   \<and> (fst ea = TextMessage \<and> isAuthenticated sa \<longrightarrow>
      fst (onEventsCallback' sa ea) = sa \<and> texts (snd (onEventsCallback' sa ea)) = [])
   \<and> (fst ep = GotPing \<longrightarrow>
      count_list (snd (onEventsCallback' st ep)) WsPong = 1
      \<and> texts (snd (onEventsCallback' st ep)) = []
      \<and> fst (onEventsCallback' st ep) = st)
   \<and> (fst ec = ConnectionClosed \<longrightarrow>
      \<not> isConnected' (fst (onEventsCallback' st ec)) \<and> \<not> isAuthenticated (fst (onEventsCallback' st ec))
      \<and> texts (snd (onEventsCallback' st ec)) = [])
   \<and> device_info_json = ''{"type":"device_info","device":"esp32cam","version":"1.0"}''\<close>
proof -
  have ack: "sublist ''connection_ack'' d \<Longrightarrow> indexOf d ''connection_ack'' \<noteq> -1 \<and> d \<noteq> []" for d
    using indexOf_found[of "''connection_ack''" d] by auto
  show ?thesis
    by (auto simp add: onEventsCallback'_def device_info_json_def split: prod.splits dest: ack)
qed

theorem session_event_transitions_witness:
  \<open>fst (ConnectionOpened, '''') = ConnectionOpened
   \<and> isConnected' (fst (onEventsCallback' \<lparr>isConnected' = False, isAuthenticated = True\<rparr> (ConnectionOpened, '''')))
   \<and> \<not> isAuthenticated (fst (onEventsCallback' \<lparr>isConnected' = False, isAuthenticated = True\<rparr> (ConnectionOpened, '''')))
   \<and> sublist ''connection_ack'' (snd (TextMessage, ''{"type":"connection_ack"}''))
   \<and> \<not> isAuthenticated \<lparr>isConnected' = True, isAuthenticated = False\<rparr>
   \<and> isAuthenticated (fst (onEventsCallback' \<lparr>isConnected' = True, isAuthenticated = False\<rparr>
                              (TextMessage, ''{"type":"connection_ack"}'')))
   \<and> texts (snd (onEventsCallback' \<lparr>isConnected' = True, isAuthenticated = False\<rparr>
                              (TextMessage, ''{"type":"connection_ack"}''))) = [device_info_json]
   \<and> isAuthenticated \<lparr>isConnected' = True, isAuthenticated = True\<rparr>
   \<and> texts (snd (onEventsCallback' \<lparr>isConnected' = True, isAuthenticated = True\<rparr>
                              (TextMessage, ''{"type":"connection_ack"}''))) = []
   \<and> count_list (snd (onEventsCallback' \<lparr>isConnected' = False, isAuthenticated = True\<rparr> (GotPing, ''''))) WsPong = 1
   \<and> \<not> isConnected' (fst (onEventsCallback' \<lparr>isConnected' = False, isAuthenticated = True\<rparr> (ConnectionClosed, '''')))
   \<and> \<not> isAuthenticated (fst (onEventsCallback' \<lparr>isConnected' = False, isAuthenticated = True\<rparr> (ConnectionClosed, '''')))\<close>
proof -
  have s: \<open>sublist ''connection_ack'' (snd (TextMessage, ''{"type":"connection_ack"}''))\<close>
    by (simp add: indexOf_found[symmetric] indexOf_def)
  note T = session_event_transitions[of "(ConnectionOpened, '''')"
      "\<lparr>isConnected' = False, isAuthenticated = True\<rparr>"
      \<open>(TextMessage, ''{"type":"connection_ack"}'')\<close>
      "\<lparr>isConnected' = True, isAuthenticated = False\<rparr>"
      \<open>(TextMessage, ''{"type":"connection_ack"}'')\<close>
      "\<lparr>isConnected' = True, isAuthenticated = True\<rparr>"
      "(GotPing, '''')" "(ConnectionClosed, '''')"]
  from T s show ?thesis by simp
qed

end
